theory Spec2Isabelle
  imports Complex_Main "HOL-Library.Stream"
begin

section \<open>Monte Carlo localisation (usc545mcl.py): data model\<close>

text \<open>
  The numeric values of the program are NumPy \<open>float64\<close>, Python integers and
  fixed-width integers. A finite \<open>float64\<close> value is the real number it denotes;
  infinities and \<open>nan\<close> have no value here. Poses, ranges and time differences are
  computed in exact real arithmetic. The weight computation of the sensor update, where
  rounding decides a branch, is written over the \<open>float64\<close> operations themselves
  (\<open>float64_ops\<close> below). Cell indices and the error term of the line walk are
  \<open>int\<close>: the walk only ever holds values between the two end cells and one step
  beyond the grid, so no fixed-width overflow is reachable in it.
\<close>

datatype error = IndexError | ValueError | TypeError

text \<open>A cell index is the two-element integer array \<open>[x, y]\<close> = (column, row).\<close>

type_synonym cell = "int \<times> int"

text \<open>
  \<open>grid_data\<close>: a two-dimensional array of cell values, \<open>shape = (rows, cols)\<close>,
  stored row-major as \<open>reshape(rows, cols)\<close> builds it.
\<close>

record ndarray2 =
  shape0 :: nat
  shape1 :: nat
  flat :: "int list"

definition getitem2 :: "ndarray2 \<Rightarrow> int \<Rightarrow> int \<Rightarrow> int" where
  \<comment> \<open>\<open>a[r, c]\<close> for an index already known to be inside the shape\<close>
  "getitem2 a r c = flat a ! (nat r * shape1 a + nat c)"

definition in_bounds :: "ndarray2 \<Rightarrow> cell \<Rightarrow> bool" where
  "in_bounds grid_data p =
     (0 \<le> fst p \<and> fst p < int (shape1 grid_data) \<and>
      0 \<le> snd p \<and> snd p < int (shape0 grid_data))"

section \<open>Ray casting\<close>

text \<open>
  The body of \<open>for i in range(n)\<close> in \<open>_CastRay\<close>, by recursion on the iterations
  that remain. The state is \<open>p\<close>, \<open>error\<close> and \<open>last_p\<close>; \<open>inc\<close> and the doubled
  \<open>delta\<close> are fixed. The result is the returned cell together with the list of
  the cells the loop visited (the values of \<open>p\<close> at the head of each iteration it
  entered), in order.
\<close>

fun CastRay_loop ::
  "nat \<Rightarrow> ndarray2 \<Rightarrow> cell \<Rightarrow> cell \<Rightarrow> cell \<Rightarrow> cell \<Rightarrow> int \<Rightarrow> cell \<Rightarrow> cell \<times> cell list" where
  "CastRay_loop 0 grid_data p1 inc delta p err last_p = (p1, [])"
| "CastRay_loop (Suc k) grid_data p1 inc delta p err last_p =
     (if \<not> (0 \<le> fst p \<and> fst p < int (shape1 grid_data) \<and>
             0 \<le> snd p \<and> snd p < int (shape0 grid_data))
      then (last_p, [p])
      else if getitem2 grid_data (snd p) (fst p) \<noteq> 0
      then (p, [p])
      else if err > 0
      then apsnd ((#) p)
             (CastRay_loop k grid_data p1 inc delta
                (fst p + fst inc, snd p) (err - snd delta) p)
      else apsnd ((#) p)
             (CastRay_loop k grid_data p1 inc delta
                (fst p, snd p + snd inc) (err + fst delta) p))"

definition CastRay_run :: "cell \<Rightarrow> cell \<Rightarrow> ndarray2 \<Rightarrow> cell \<times> cell list" where
  "CastRay_run p0 p1 grid_data =
     (let delta = (abs (fst p1 - fst p0), abs (snd p1 - snd p0));
          n = nat (1 + (fst delta + snd delta));
          inc = (if fst p1 > fst p0 then 1 else - 1,
                 if snd p1 > snd p0 then 1 else - 1);
          err = fst delta - snd delta
      in CastRay_loop n grid_data p1 inc (2 * fst delta, 2 * snd delta) p0 err p0)"

definition CastRay :: "cell \<Rightarrow> cell \<Rightarrow> ndarray2 \<Rightarrow> cell" where
  "CastRay p0 p1 grid_data = fst (CastRay_run p0 p1 grid_data)"

definition CastRay_visited :: "cell \<Rightarrow> cell \<Rightarrow> ndarray2 \<Rightarrow> cell list" where
  "CastRay_visited p0 p1 grid_data = snd (CastRay_run p0 p1 grid_data)"

text \<open>Every cell of the array is \<open>free\<close> (0), and the array is as large as its shape says.\<close>

definition all_free :: "ndarray2 \<Rightarrow> bool" where
  "all_free grid_data =
     (length (flat grid_data) = shape0 grid_data * shape1 grid_data \<and>
      list_all (\<lambda>v. v = 0) (flat grid_data))"

section \<open>Poses, grids and scans\<close>

definition LINEAR_MODEL_VAR_X :: real where "LINEAR_MODEL_VAR_X = 0.5"
definition LINEAR_MODEL_VAR_Y :: real where "LINEAR_MODEL_VAR_Y = 0.5"
definition ANGULAR_MODEL_VAR :: real where "ANGULAR_MODEL_VAR = 0.3"
definition SENSOR_MODEL_VAR :: real where "SENSOR_MODEL_VAR = 15"
definition NUM_PARTICLES :: nat where "NUM_PARTICLES = 2000"

record Pose =
  rotation :: real
  translation :: "real \<times> real"

text \<open>
  \<open>Grid\<close>: the fields its constructor sets. \<open>data\<close> is the message's cell list
  reshaped to \<open>(rows, cols)\<close>.
\<close>

record Grid =
  cols :: nat
  rows :: nat
  resolution :: real
  map_t_extents :: "real \<times> real"
  world_T_map :: Pose
  data :: ndarray2

text \<open>
  \<open>.astype(np.int32)\<close> on a float array is the C conversion: the fractional part is
  dropped (truncation toward zero). This holds for quotients inside the 32-bit range;
  outside it, and for the non-finite quotients of a zero resolution, the conversion is
  platform-defined and not described by this definition.
\<close>

definition astype_int32 :: "real \<Rightarrow> int" where
  "astype_int32 x = (if 0 \<le> x then \<lfloor>x\<rfloor> else - \<lfloor>- x\<rfloor>)"

definition int32_range :: "real \<Rightarrow> bool" where
  "int32_range x = (- 2147483649 < x \<and> x < 2147483648)"

definition GridToWorld :: "Grid \<Rightarrow> cell \<Rightarrow> real \<times> real" where
  "GridToWorld g cell_index =
     (resolution g * real_of_int (fst cell_index) + fst (translation (world_T_map g)),
      resolution g * real_of_int (snd cell_index) + snd (translation (world_T_map g)))"

definition WorldToGrid :: "Grid \<Rightarrow> real \<times> real \<Rightarrow> cell" where
  "WorldToGrid g point =
     (astype_int32 ((fst point - fst (translation (world_T_map g))) / resolution g),
      astype_int32 ((snd point - snd (translation (world_T_map g))) / resolution g))"

text \<open>
  An integer index into an axis of length \<open>n\<close> as NumPy resolves it: a negative index
  counts from the end, and an index outside \<open>[-n, n)\<close> raises \<open>IndexError\<close>.
\<close>

definition np_index :: "nat \<Rightarrow> int \<Rightarrow> error + nat" where
  "np_index n i =
     (if 0 \<le> i \<and> i < int n then Inr (nat i)
      else if - int n \<le> i \<and> i < 0 then Inr (nat (i + int n))
      else Inl IndexError)"

definition GetWorldCoords :: "Grid \<Rightarrow> real \<times> real \<Rightarrow> error + int" where
  "GetWorldCoords g point =
     (case WorldToGrid g point of (x, y) \<Rightarrow>
        (case np_index (shape0 (data g)) y of
           Inl e \<Rightarrow> Inl e
         | Inr r \<Rightarrow>
            (case np_index (shape1 (data g)) x of
               Inl e \<Rightarrow> Inl e
             | Inr c \<Rightarrow> Inr (flat (data g) ! (r * shape1 (data g) + c)))))"

text \<open>The fields of a \<open>sensor_msgs/LaserScan\<close> message that the program reads.\<close>

record scan_msg =
  scan_stamp :: real
  angle_min :: real
  angle_max :: real
  msg_range_max :: real
  msg_ranges :: "real list"

record Scan =
  range_max :: real
  angles :: "real list"
  ranges :: "real list"

definition linspace :: "real \<Rightarrow> real \<Rightarrow> nat \<Rightarrow> real list" where
  "linspace start stop num =
     (if num = 1 then [start]
      else map (\<lambda>i. start + real i * ((stop - start) / real (num - 1))) [0..<num])"

definition Scan_init :: "scan_msg \<Rightarrow> Scan" where
  "Scan_init m =
     \<lparr>range_max = msg_range_max m,
      angles = linspace (angle_min m) (angle_max m) (length (msg_ranges m)),
      ranges = msg_ranges m\<rparr>"

section \<open>Simulated ranges\<close>

definition ComputeSimulatedRanges ::
  "real list \<Rightarrow> real \<Rightarrow> real \<times> real \<Rightarrow> real \<times> real \<Rightarrow> real \<Rightarrow> ndarray2 \<Rightarrow> real \<Rightarrow> real list" where
  "ComputeSimulatedRanges scan_angles scan_range_max world_t_map map_t_particle map_R_particle
      grid_data grid_resolution =
     (let src_cell =
            (astype_int32 ((fst map_t_particle - fst world_t_map) / grid_resolution),
             astype_int32 ((snd map_t_particle - snd world_t_map) / grid_resolution));
          angles = map (\<lambda>a. a + map_R_particle) scan_angles;
          max_points =
            map (\<lambda>a. (fst map_t_particle + scan_range_max * cos a,
                      snd map_t_particle + scan_range_max * sin a)) angles;
          max_cells =
            map (\<lambda>pt. (astype_int32 ((fst pt - fst world_t_map) / grid_resolution),
                       astype_int32 ((snd pt - snd world_t_map) / grid_resolution))) max_points;
          simulated_cell_ranges_sq =
            map (\<lambda>max_cell.
                   (let hit_cell = CastRay src_cell max_cell grid_data
                    in real_of_int ((fst hit_cell - fst src_cell)\<^sup>2 +
                                    (snd hit_cell - snd src_cell)\<^sup>2))) max_cells
      in map (\<lambda>r. grid_resolution * sqrt r) simulated_cell_ranges_sq)"

definition RotateBy :: "real \<times> real \<Rightarrow> real \<Rightarrow> real \<times> real" where
  "RotateBy x angle =
     (let c = cos angle; s = sin angle
      in (c * fst x + (- s) * snd x, s * fst x + c * snd x))"

section \<open>Particles\<close>

text \<open>
  Particles and grids are objects: a \<open>Particle\<close> holds a reference to the \<open>Grid\<close> it
  was built with, every particle of a filter starts with a reference to the same
  grid, and \<open>copy.deepcopy\<close> makes new objects. The store maps an address to the object
  there; \<open>next_grid\<close> and \<open>next_particle\<close> are the addresses the next new objects
  get. A particle's \<open>Pose\<close> is created for that particle alone (in its constructor or
  by \<open>deepcopy\<close>) and is held by value.
\<close>

type_synonym addr = nat

text \<open>
  A weight is a Python number: an \<open>int\<close> (the constructor's default \<open>1\<close>, and
  \<open>1 * 10**300\<close>) or a float (a Python \<open>float\<close> or an \<open>np.float64\<close>).
\<close>

datatype pynum = PyInt int | PyFloat real

fun pyvalue :: "pynum \<Rightarrow> real" where
  "pyvalue (PyInt i) = real_of_int i"
| "pyvalue (PyFloat x) = x"

fun is_pyfloat :: "pynum \<Rightarrow> bool" where
  "is_pyfloat (PyInt i) = False"
| "is_pyfloat (PyFloat x) = True"

record Particle =
  grid :: addr
  map_T_particle :: Pose
  last_odom_timestamp :: "real option"
  weight :: pynum

record heap =
  grid_objs :: "addr \<Rightarrow> Grid"
  particle_objs :: "addr \<Rightarrow> Particle"
  next_grid :: addr
  next_particle :: addr

text \<open>
  The random source is the stream of the variates NumPy's generator yields next: a
  standard normal variate \<open>z\<close> for each \<open>np.random.normal(loc, scale)\<close>, which
  returns \<open>loc + scale * z\<close>, and a variate \<open>u\<close> of \<open>[0, 1)\<close> for each component
  of \<open>np.random.uniform(low, high)\<close>, which returns \<open>low + (high - low) * u\<close>.
\<close>

type_synonym rng = "real stream"

definition np_random_normal :: "real \<Rightarrow> real \<Rightarrow> rng \<Rightarrow> real \<times> rng" where
  "np_random_normal loc scale r = (loc + scale * shd r, stl r)"

definition np_random_uniform :: "real \<Rightarrow> real \<Rightarrow> rng \<Rightarrow> real \<times> rng" where
  "np_random_uniform low high r = (low + (high - low) * shd r, stl r)"

definition np_random_uniform2 :: "real \<times> real \<Rightarrow> real \<times> real \<Rightarrow> rng \<Rightarrow> (real \<times> real) \<times> rng" where
  "np_random_uniform2 low high r =
     ((fst low + (fst high - fst low) * shd r,
       snd low + (snd high - snd low) * shd (stl r)), stl (stl r))"

subsection \<open>\<open>Particle.__init__\<close>\<close>

text \<open>
  The rejection loop \<open>while not found\<close> of the constructor: it draws a translation until
  the cell under it is free. It need not terminate (\<open>None\<close>), and
  \<open>GetWorldCoords\<close> may raise.
\<close>

partial_function (option) sample_translation ::
  "Grid \<Rightarrow> real \<times> real \<Rightarrow> real \<times> real \<Rightarrow> rng \<Rightarrow> (error + (real \<times> real) \<times> rng) option" where
  "sample_translation g ll ul r =
     (case GetWorldCoords g (fst (np_random_uniform2 ll ul r)) of
        Inl e \<Rightarrow> Some (Inl e)
      | Inr v \<Rightarrow>
          if v = 0 then Some (Inr (np_random_uniform2 ll ul r))
          else sample_translation g ll ul (snd (np_random_uniform2 ll ul r)))"

definition Particle_init :: "addr \<Rightarrow> heap \<Rightarrow> rng \<Rightarrow> (error + addr \<times> heap \<times> rng) option" where
  "Particle_init grid_ref h r =
     (let g = grid_objs h grid_ref;
          ll = translation (world_T_map g);
          ul = (fst ll + fst (map_t_extents g), snd ll + snd (map_t_extents g))
      in case sample_translation g ll ul r of
           None \<Rightarrow> None
         | Some (Inl e) \<Rightarrow> Some (Inl e)
         | Some (Inr (t, r')) \<Rightarrow>
             (case np_random_uniform (- pi) pi r' of
                (rot, r'') \<Rightarrow>
                  Some (Inr (next_particle h,
                    h\<lparr>particle_objs := (particle_objs h)(next_particle h :=
                          \<lparr>grid = grid_ref,
                           map_T_particle = \<lparr>rotation = rot, translation = t\<rparr>,
                           last_odom_timestamp = None,
                           weight = PyInt 1\<rparr>),
                      next_particle := Suc (next_particle h)\<rparr>,
                    r''))))"

subsection \<open>\<open>Particle.UpdateOdom\<close>\<close>

text \<open>The fields of a \<open>nav_msgs/Odometry\<close> message that the program reads.\<close>

record odom_msg =
  odom_stamp :: real
  linear_x :: real
  linear_y :: real
  angular_z :: real

definition Particle_UpdateOdom :: "addr \<Rightarrow> odom_msg \<Rightarrow> heap \<Rightarrow> rng \<Rightarrow> heap \<times> rng" where
  "Particle_UpdateOdom self m h r =
     (let p = particle_objs h self;
          dt = (case last_odom_timestamp p of
                  Some t \<Rightarrow> odom_stamp m - t
                | None \<Rightarrow> 0);
          (velx, r1) = np_random_normal (linear_x m) LINEAR_MODEL_VAR_X r;
          (vely, r2) = np_random_normal (linear_y m) LINEAR_MODEL_VAR_Y r1;
          vel_map = RotateBy (velx, vely) (rotation (map_T_particle p));
          new_translation =
            (fst (translation (map_T_particle p)) + fst vel_map * dt,
             snd (translation (map_T_particle p)) + snd vel_map * dt);
          (velrot, r3) = np_random_normal (angular_z m) ANGULAR_MODEL_VAR r2;
          new_rotation = rotation (map_T_particle p) + velrot * dt
      in (h\<lparr>particle_objs := (particle_objs h)(self :=
               p\<lparr>last_odom_timestamp := Some (odom_stamp m),
                 map_T_particle :=
                   \<lparr>rotation = new_rotation, translation = new_translation\<rparr>\<rparr>)\<rparr>,
          r3))"

subsection \<open>\<open>Particle.UpdateScan\<close>\<close>

text \<open>
  The \<open>float64\<close> operations of the weight computation: each takes and returns the
  values of finite floats. What they round to, and where they underflow to zero, is
  left to the operations; \<open>exact_ops\<close> are the operations without rounding.
\<close>

record float64_ops =
  fsub :: "real \<Rightarrow> real \<Rightarrow> real"
  fmul :: "real \<Rightarrow> real \<Rightarrow> real"
  fdiv :: "real \<Rightarrow> real \<Rightarrow> real"
  fsquare :: "real \<Rightarrow> real"
  fsqrt :: "real \<Rightarrow> real"
  fexp :: "real \<Rightarrow> real"

definition exact_ops :: float64_ops where
  "exact_ops =
     \<lparr>fsub = (\<lambda>x y. x - y), fmul = (\<lambda>x y. x * y), fdiv = (\<lambda>x y. x / y),
      fsquare = (\<lambda>x. x\<^sup>2), fsqrt = sqrt, fexp = exp\<rparr>"

definition beam_likelihood :: "float64_ops \<Rightarrow> real \<Rightarrow> real \<Rightarrow> real" where
  \<comment> \<open>the value of \<open>p\<close> for one beam: measured range \<open>z\<close>, simulated range \<open>s\<close>\<close>
  "beam_likelihood F z s =
     fmul F
       (fdiv F 1 (fmul F (fsqrt F (fmul F 2 pi)) SENSOR_MODEL_VAR))
       (fexp F (fmul F (- 0.5) (fsquare F (fdiv F (fsub F z s) SENSOR_MODEL_VAR))))"

text \<open>
  \<open>for i in range(len(scan.ranges))\<close>, multiplying \<open>weights\<close> by the likelihood of
  beam \<open>i\<close>: the product of a Python number and an \<open>np.float64\<close> is a float.
  \<open>sim_ranges[i]\<close> raises \<open>IndexError\<close> if there are fewer simulated ranges than
  measured ones.
\<close>

fun beam_loop :: "float64_ops \<Rightarrow> real list \<Rightarrow> real list \<Rightarrow> pynum \<Rightarrow> error + pynum" where
  "beam_loop F [] sim_ranges weights = Inr weights"
| "beam_loop F (z # zs) [] weights = Inl IndexError"
| "beam_loop F (z # zs) (s # ss) weights =
     beam_loop F zs ss (PyFloat (fmul F (pyvalue weights) (beam_likelihood F z s)))"

text \<open>
  \<open>weights * 10**300\<close>: exact for a Python \<open>int\<close>, the float product with the float
  \<open>1e300\<close> for a float.
\<close>

fun times_10_300 :: "float64_ops \<Rightarrow> pynum \<Rightarrow> pynum" where
  "times_10_300 F (PyInt i) = PyInt (i * 10 ^ 300)"
| "times_10_300 F (PyFloat x) = PyFloat (fmul F x (10 ^ 300))"

definition Particle_ComputeSimulatedRanges :: "Particle \<Rightarrow> Grid \<Rightarrow> Scan \<Rightarrow> real list" where
  "Particle_ComputeSimulatedRanges p g scan =
     ComputeSimulatedRanges (angles scan) (range_max scan) (translation (world_T_map g))
       (translation (map_T_particle p)) (rotation (map_T_particle p)) (data g) (resolution g)"

definition Particle_UpdateScan ::
  "float64_ops \<Rightarrow> addr \<Rightarrow> Scan \<Rightarrow> heap \<Rightarrow> error option \<times> heap" where
  "Particle_UpdateScan F self scan h =
     (let p = particle_objs h self;
          sim_ranges = Particle_ComputeSimulatedRanges p (grid_objs h (grid p)) scan
      in case beam_loop F (ranges scan) sim_ranges (PyInt 1) of
           Inl e \<Rightarrow> (Some e, h)
         | Inr weights \<Rightarrow>
             (None,
              h\<lparr>particle_objs := (particle_objs h)(self :=
                   p\<lparr>weight := (if pyvalue weights = 0 then PyFloat (1 / 10 ^ 300)
                                 else times_10_300 F weights)\<rparr>)\<rparr>))"

text \<open>
  The density the specification names: the normal density with the given mean and
  variance. It is not part of the program.
\<close>

definition spec_gaussian_pdf :: "real \<Rightarrow> real \<Rightarrow> real \<Rightarrow> real" where
  "spec_gaussian_pdf x mean var =
     1 / sqrt (2 * pi * var) * exp (- ((x - mean)\<^sup>2 / (2 * var)))"

section \<open>The particle filter\<close>

text \<open>
  A method of the filter takes the filter object and the store and returns both as the
  call leaves them, with the exception it raised if it raised one (\<open>Some e\<close>): a Python
  exception keeps what was assigned before it. Publishing the pose array, the mean
  pose and the scan at the end of \<open>UpdateScan\<close> changes nothing of the filter and is not
  part of the model.
\<close>

record ParticleFilter =
  pf_grid :: addr
  last_timestamp :: "real option"
  particles :: "addr list"

text \<open>\<open>xs[i]\<close> for an index \<open>i \<ge> 0\<close>.\<close>

definition getitem :: "'a list \<Rightarrow> nat \<Rightarrow> error + 'a" where
  "getitem xs i = (if i < length xs then Inr (xs ! i) else Inl IndexError)"

subsection \<open>\<open>ParticleFilter.__init__\<close>\<close>

text \<open>\<open>[Particle(grid) for _ in range(num_particles)]\<close>\<close>

fun init_particles :: "nat \<Rightarrow> addr \<Rightarrow> heap \<Rightarrow> rng \<Rightarrow> (error + addr list \<times> heap \<times> rng) option" where
  "init_particles 0 grid_ref h r = Some (Inr ([], h, r))"
| "init_particles (Suc n) grid_ref h r =
     (case Particle_init grid_ref h r of
        None \<Rightarrow> None
      | Some (Inl e) \<Rightarrow> Some (Inl e)
      | Some (Inr (a, h', r')) \<Rightarrow>
          (case init_particles n grid_ref h' r' of
             None \<Rightarrow> None
           | Some (Inl e) \<Rightarrow> Some (Inl e)
           | Some (Inr (as, h'', r'')) \<Rightarrow> Some (Inr (a # as, h'', r''))))"

definition ParticleFilter_init ::
  "addr \<Rightarrow> nat \<Rightarrow> heap \<Rightarrow> rng \<Rightarrow> (error + ParticleFilter \<times> heap \<times> rng) option" where
  "ParticleFilter_init grid_ref num_particles h r =
     (case init_particles num_particles grid_ref h r of
        None \<Rightarrow> None
      | Some (Inl e) \<Rightarrow> Some (Inl e)
      | Some (Inr (as, h', r')) \<Rightarrow>
          Some (Inr (\<lparr>pf_grid = grid_ref, last_timestamp = None, particles = as\<rparr>, h', r')))"

subsection \<open>\<open>ParticleFilter.UpdateOdom\<close>\<close>

fun UpdateOdom_loop :: "addr list \<Rightarrow> odom_msg \<Rightarrow> heap \<Rightarrow> rng \<Rightarrow> heap \<times> rng" where
  "UpdateOdom_loop [] m h r = (h, r)"
| "UpdateOdom_loop (particle # rest) m h r =
     (case Particle_UpdateOdom particle m h r of
        (h', r') \<Rightarrow> UpdateOdom_loop rest m h' r')"

definition ParticleFilter_UpdateOdom ::
  "ParticleFilter \<Rightarrow> odom_msg \<Rightarrow> heap \<Rightarrow> rng \<Rightarrow> ParticleFilter \<times> heap \<times> rng" where
  "ParticleFilter_UpdateOdom pf m h r =
     (let pf1 = (case last_timestamp pf of
                   None \<Rightarrow> pf\<lparr>last_timestamp := Some (odom_stamp m)\<rparr>
                 | Some t \<Rightarrow> pf)
      in case UpdateOdom_loop (particles pf1) m h r of (h', r') \<Rightarrow> (pf1, h', r'))"

subsection \<open>\<open>ParticleFilter.UpdateScan\<close>\<close>

text \<open>\<open>for particle in self.particles: particle.UpdateScan(scan)\<close>\<close>

fun UpdateScan_loop ::
  "float64_ops \<Rightarrow> addr list \<Rightarrow> Scan \<Rightarrow> heap \<Rightarrow> error option \<times> heap" where
  "UpdateScan_loop F [] scan h = (None, h)"
| "UpdateScan_loop F (particle # rest) scan h =
     (case Particle_UpdateScan F particle scan h of
        (Some e, h') \<Rightarrow> (Some e, h')
      | (None, h') \<Rightarrow> UpdateScan_loop F rest scan h')"

text \<open>
  Step 1 and 2 of the importance-sampling section:
  \<open>for i in range(NUM_PARTICLES): prob.append(self.particles[i].weight)\<close>, over the
  index list \<open>[0, ..., NUM_PARTICLES - 1]\<close>.
\<close>

fun prob_loop :: "addr list \<Rightarrow> heap \<Rightarrow> nat list \<Rightarrow> error + pynum list" where
  "prob_loop ps h [] = Inr []"
| "prob_loop ps h (i # rest) =
     (case getitem ps i of
        Inl e \<Rightarrow> Inl e
      | Inr a \<Rightarrow>
          (case prob_loop ps h rest of
             Inl e \<Rightarrow> Inl e
           | Inr prob \<Rightarrow> Inr (weight (particle_objs h a) # prob)))"

text \<open>
  \<open>prob = prob / np.sum(prob)\<close>, where \<open>prob\<close> is a Python list.

  When every weight is a Python \<open>int\<close> and one of them fits no 64-bit integer type,
  NumPy makes the list an array of objects, \<open>np.sum\<close> is a Python \<open>int\<close>, and
  dividing a list by it raises \<open>TypeError\<close>.

  Otherwise \<open>np.sum\<close> is a NumPy scalar and the quotient is an array of floats. With a
  sum of zero NumPy does not raise: it issues a \<open>RuntimeWarning\<close>, and the quotients
  are \<open>nan\<close> or infinite, which is the value \<open>None\<close> here. The quotients are those
  of the values; for integer weights a 64-bit sum that wraps around is not described.
\<close>

datatype warning = RuntimeWarning

fun is_pyint :: "pynum \<Rightarrow> bool" where
  "is_pyint (PyInt i) = True"
| "is_pyint (PyFloat x) = False"

fun fits_int64_types :: "pynum \<Rightarrow> bool" where
  "fits_int64_types (PyInt i) = (- (2 ^ 63) \<le> i \<and> i < 2 ^ 64)"
| "fits_int64_types (PyFloat x) = True"

definition np_object_dtype :: "pynum list \<Rightarrow> bool" where
  "np_object_dtype prob = (list_all is_pyint prob \<and> list_ex (\<lambda>w. \<not> fits_int64_types w) prob)"

definition np_divide_sum :: "real list \<Rightarrow> real list option" where
  "np_divide_sum prob =
     (if sum_list prob = 0 then None else Some (map (\<lambda>w. w / sum_list prob) prob))"

definition prob_divide_sum :: "pynum list \<Rightarrow> (error + real list option) \<times> warning list" where
  "prob_divide_sum prob =
     (if np_object_dtype prob then (Inl TypeError, [])
      else (Inr (np_divide_sum (map pyvalue prob)),
            if sum_list (map pyvalue prob) = 0 then [RuntimeWarning] else []))"

text \<open>
  \<open>np.random.choice(a, sz, p=p)\<close>: NumPy raises \<open>ValueError\<close> unless \<open>p\<close> has
  \<open>a\<close> entries, none of them \<open>nan\<close> or negative, that sum to 1. The indices it draws
  otherwise are the argument \<open>drawn\<close>: \<open>sz\<close> indices below \<open>a\<close>, whatever the
  random source yields.
\<close>

definition np_random_choice :: "nat \<Rightarrow> nat \<Rightarrow> real list option \<Rightarrow> nat list \<Rightarrow> error + nat list" where
  "np_random_choice a sz p drawn =
     (case p of
        None \<Rightarrow> Inl ValueError
      | Some ps \<Rightarrow>
          if a = 0 \<or> length ps \<noteq> a then Inl ValueError
          else if list_ex (\<lambda>x. x < 0) ps then Inl ValueError
          else if sum_list ps \<noteq> 1 then Inl ValueError
          else Inr drawn)"

text \<open>
  \<open>copy.deepcopy\<close> of a particle: a new particle object with the same field values,
  whose grid is a new grid object with the same contents.
\<close>

definition deepcopy_Particle :: "addr \<Rightarrow> heap \<Rightarrow> addr \<times> heap" where
  "deepcopy_Particle a h =
     (let p = particle_objs h a
      in (next_particle h,
          h\<lparr>grid_objs := (grid_objs h)(next_grid h := grid_objs h (grid p)),
            next_grid := Suc (next_grid h),
            particle_objs := (particle_objs h)(next_particle h := p\<lparr>grid := next_grid h\<rparr>),
            next_particle := Suc (next_particle h)\<rparr>))"

text \<open>
  Step 4:
  \<open>for i in range(NUM_PARTICLES): new_particles.append(copy.deepcopy(self.particles[new_indices[i]]))\<close>
\<close>

fun copy_loop :: "addr list \<Rightarrow> nat list \<Rightarrow> nat list \<Rightarrow> heap \<Rightarrow> (error + addr list) \<times> heap" where
  "copy_loop ps new_indices [] h = (Inr [], h)"
| "copy_loop ps new_indices (i # rest) h =
     (case getitem new_indices i of
        Inl e \<Rightarrow> (Inl e, h)
      | Inr idx \<Rightarrow>
          (case getitem ps idx of
             Inl e \<Rightarrow> (Inl e, h)
           | Inr a \<Rightarrow>
               (case deepcopy_Particle a h of
                  (a', h') \<Rightarrow>
                    (case copy_loop ps new_indices rest h' of
                       (Inl e, h'') \<Rightarrow> (Inl e, h'')
                     | (Inr as, h'') \<Rightarrow> (Inr (a' # as), h'')))))"

text \<open>
  The indices \<open>is\<close> of a copying loop are valid for the drawn indices \<open>ni\<close> and
  the particle list \<open>ps\<close>: each \<open>ni[i]\<close> exists and is an index into \<open>ps\<close>.
\<close>

definition valid_draws :: "addr list \<Rightarrow> nat list \<Rightarrow> nat list \<Rightarrow> bool" where
  "valid_draws ps ni is = list_all (\<lambda>i. i < length ni \<and> ni ! i < length ps) is"

text \<open>Step 5: \<open>for i in range(NUM_PARTICLES): self.particles[i] = new_particles[i]\<close>\<close>

fun assign_loop :: "addr list \<Rightarrow> addr list \<Rightarrow> nat list \<Rightarrow> error option \<times> addr list" where
  "assign_loop ps new_particles [] = (None, ps)"
| "assign_loop ps new_particles (i # rest) =
     (case getitem new_particles i of
        Inl e \<Rightarrow> (Some e, ps)
      | Inr a \<Rightarrow>
          if i < length ps then assign_loop (ps[i := a]) new_particles rest
          else (Some IndexError, ps))"

text \<open>
  The importance-sampling section of \<open>UpdateScan\<close> (the resampling step): the
  exception if one is raised, the filter and the store as the step leaves them, and the
  warnings issued on the way.
\<close>

definition Resample_run ::
  "ParticleFilter \<Rightarrow> nat list \<Rightarrow> heap \<Rightarrow>
     (error option \<times> ParticleFilter \<times> heap) \<times> warning list" where
  "Resample_run pf drawn h =
     (case prob_loop (particles pf) h [0..<NUM_PARTICLES] of
        Inl e \<Rightarrow> ((Some e, pf, h), [])
      | Inr prob \<Rightarrow>
          (case prob_divide_sum prob of
             (Inl e, ws) \<Rightarrow> ((Some e, pf, h), ws)
           | (Inr p, ws) \<Rightarrow>
               (case np_random_choice NUM_PARTICLES NUM_PARTICLES p drawn of
                  Inl e \<Rightarrow> ((Some e, pf, h), ws)
                | Inr new_indices \<Rightarrow>
                    (case copy_loop (particles pf) new_indices [0..<NUM_PARTICLES] h of
                       (Inl e, h') \<Rightarrow> ((Some e, pf, h'), ws)
                     | (Inr new_particles, h') \<Rightarrow>
                         (case assign_loop (particles pf) new_particles [0..<NUM_PARTICLES] of
                            (e, ps) \<Rightarrow> ((e, pf\<lparr>particles := ps\<rparr>, h'), ws))))))"

definition Resample ::
  "ParticleFilter \<Rightarrow> nat list \<Rightarrow> heap \<Rightarrow> error option \<times> ParticleFilter \<times> heap" where
  "Resample pf drawn h = fst (Resample_run pf drawn h)"


definition ParticleFilter_UpdateScan ::
  "float64_ops \<Rightarrow> ParticleFilter \<Rightarrow> scan_msg \<Rightarrow> nat list \<Rightarrow> heap \<Rightarrow>
     error option \<times> ParticleFilter \<times> heap" where
  "ParticleFilter_UpdateScan F pf m drawn h =
     (let pf1 = (case last_timestamp pf of
                   None \<Rightarrow> pf\<lparr>last_timestamp := Some (scan_stamp m)\<rparr>
                 | Some t \<Rightarrow> pf);
          scan = Scan_init m
      in case UpdateScan_loop F (particles pf1) scan h of
           (Some e, h1) \<Rightarrow> (Some e, pf1, h1)
         | (None, h1) \<Rightarrow> Resample pf1 drawn h1)"

section \<open>Example inputs\<close>

text \<open>
  A map of two rows and three columns with one occupied cell, at column 2 of row 0; a
  store in which every address holds this grid and a particle at the world point
  (0.5, 0.5) facing along x, as its constructor leaves it; a scan of one beam at
  bearing 0 that measures the range 2, one that measures the range 1000, and a scan
  with no beams.
\<close>

definition corridor :: Grid where
  "corridor =
     \<lparr>cols = 3, rows = 2, resolution = 1, map_t_extents = (3, 2),
      world_T_map = \<lparr>rotation = 0, translation = (0, 0)\<rparr>,
      data = \<lparr>shape0 = 2, shape1 = 3, flat = [0, 0, 100, 0, 0, 0]\<rparr>\<rparr>"

definition corridor_heap :: heap where
  "corridor_heap =
     \<lparr>grid_objs = (\<lambda>a. corridor),
      particle_objs = (\<lambda>a.
         \<lparr>grid = 0,
          map_T_particle = \<lparr>rotation = 0, translation = (1 / 2, 1 / 2)\<rparr>,
          last_odom_timestamp = None, weight = PyInt 1\<rparr>),
      next_grid = 1, next_particle = 1\<rparr>"

definition one_beam :: scan_msg where
  "one_beam =
     \<lparr>scan_stamp = 0, angle_min = 0, angle_max = 0, msg_range_max = 5, msg_ranges = [2]\<rparr>"

definition far_beam :: scan_msg where
  "far_beam =
     \<lparr>scan_stamp = 0, angle_min = 0, angle_max = 0, msg_range_max = 5, msg_ranges = [1000]\<rparr>"

definition no_beams :: scan_msg where
  "no_beams =
     \<lparr>scan_stamp = 0, angle_min = 0, angle_max = 0, msg_range_max = 5, msg_ranges = []\<rparr>"

text \<open>
  Operations that are exact except that the exponential is zero below -746, where the
  \<open>float64\<close> exponential has underflowed to zero.
\<close>

definition underflow_ops :: float64_ops where
  "underflow_ops = exact_ops\<lparr>fexp := (\<lambda>x. if x < - 746 then 0 else exp x)\<rparr>"

text \<open>
  A filter of \<open>NUM_PARTICLES\<close> particles, the objects at the addresses
  \<open>0, ..., NUM_PARTICLES - 1\<close>. In \<open>crowd_heap\<close> each of them is the example
  particle as constructed (weight the \<open>int\<close> 1). In \<open>scanned_heap\<close> each has the
  weight \<open>10**(-300)\<close>, which the sensor update assigns when the product of the beam
  likelihoods is zero; in \<open>beamless_heap\<close> each has the weight \<open>10**300\<close>, which
  it assigns for a scan with no beams.
\<close>

definition crowd :: ParticleFilter where
  "crowd = \<lparr>pf_grid = 0, last_timestamp = None, particles = [0..<NUM_PARTICLES]\<rparr>"

definition crowd_heap :: heap where
  "crowd_heap = corridor_heap\<lparr>next_particle := NUM_PARTICLES\<rparr>"

definition scanned_heap :: heap where
  "scanned_heap =
     crowd_heap\<lparr>particle_objs :=
       (\<lambda>a. if a \<in> set (particles crowd)
            then (particle_objs crowd_heap a)\<lparr>weight := PyFloat (1 / 10 ^ 300)\<rparr>
            else particle_objs crowd_heap a)\<rparr>"


section \<open>Properties of the ray walk\<close>

lemma CastRay_loop_length: "length (snd (CastRay_loop k g p1 inc d p e lp)) \<le> k"
  by (induction k arbitrary: p e lp) (auto simp: Let_def)

lemma CastRay_loop_Suc:
  "CastRay_loop (Suc k) g p1 inc d p e lp =
     (if \<not> in_bounds g p then (lp, [p])
      else if getitem2 g (snd p) (fst p) \<noteq> 0 then (p, [p])
      else apsnd ((#) p) (CastRay_loop k g p1 inc d
             (if e > 0 then (fst p + fst inc, snd p) else (fst p, snd p + snd inc))
             (if e > 0 then e - snd d else e + fst d) p))"
  by (simp add: in_bounds_def)

lemma CastRay_loop_visited_hd:
  "snd (CastRay_loop (Suc k) g p1 inc d p e lp) =
     p # tl (snd (CastRay_loop (Suc k) g p1 inc d p e lp))"
  by (simp add: CastRay_loop_Suc del: CastRay_loop.simps(2))

subsection \<open>Leaving the grid\<close>

lemma CastRay_loop_out_of_bounds:
  "c \<in> set (snd (CastRay_loop k g p1 inc d p e lp)) \<Longrightarrow> \<not> in_bounds g c \<Longrightarrow>
   fst (CastRay_loop k g p1 inc d p e lp) =
     (if in_bounds g p
      then last (filter (in_bounds g) (snd (CastRay_loop k g p1 inc d p e lp)))
      else lp)"
proof (induction k arbitrary: p e lp)
  case 0
  then show ?case by simp
next
  case (Suc k)
  show ?case
  proof (cases "in_bounds g p")
    case False
    then show ?thesis by (simp add: CastRay_loop_Suc del: CastRay_loop.simps(2))
  next
    case inb: True
    show ?thesis
    proof (cases "getitem2 g (snd p) (fst p) \<noteq> 0")
      case True
      with inb Suc.prems show ?thesis
        by (auto simp: CastRay_loop_Suc simp del: CastRay_loop.simps(2))
    next
      case free: False
      define p' where
        "p' = (if e > 0 then (fst p + fst inc, snd p) else (fst p, snd p + snd inc))"
      define e' where "e' = (if e > 0 then e - snd d else e + fst d)"
      let ?r = "CastRay_loop k g p1 inc d p' e' p"
      have step: "CastRay_loop (Suc k) g p1 inc d p e lp = apsnd ((#) p) ?r"
        using inb free by (simp add: CastRay_loop_Suc p'_def e'_def del: CastRay_loop.simps(2))
      from Suc.prems inb step have cin: "c \<in> set (snd ?r)" by auto
      then obtain k' where k': "k = Suc k'" by (cases k) auto
      from Suc.IH[OF cin Suc.prems(2)]
      have IH: "fst ?r = (if in_bounds g p' then last (filter (in_bounds g) (snd ?r)) else p)" .
      show ?thesis
      proof (cases "in_bounds g p'")
        case True
        have "snd ?r = p' # tl (snd ?r)" unfolding k' by (rule CastRay_loop_visited_hd)
        then have "filter (in_bounds g) (snd ?r) \<noteq> []" using True
          by (metis filter.simps(2) list.distinct(1))
        then show ?thesis using IH True inb step by simp
      next
        case False
        then have "?r = (p, [p'])"
          unfolding k' by (simp add: CastRay_loop_Suc del: CastRay_loop.simps(2))
        then show ?thesis using False inb step by simp
      qed
    qed
  qed
qed

subsection \<open>Stopping at a cell that is not free\<close>

lemma CastRay_loop_hit:
  "c \<in> set (snd (CastRay_loop k g p1 inc d p e lp)) \<Longrightarrow> in_bounds g c \<Longrightarrow>
   getitem2 g (snd c) (fst c) \<noteq> 0 \<Longrightarrow> fst (CastRay_loop k g p1 inc d p e lp) = c"
proof (induction k arbitrary: p e lp)
  case 0
  then show ?case by simp
next
  case (Suc k)
  show ?case
  proof (cases "\<not> in_bounds g p \<or> getitem2 g (snd p) (fst p) \<noteq> 0")
    case True
    with Suc.prems show ?thesis
      by (auto simp: CastRay_loop_Suc simp del: CastRay_loop.simps(2) split: if_splits)
  next
    case False
    define p' where
      "p' = (if e > 0 then (fst p + fst inc, snd p) else (fst p, snd p + snd inc))"
    define e' where "e' = (if e > 0 then e - snd d else e + fst d)"
    have step: "CastRay_loop (Suc k) g p1 inc d p e lp =
                  apsnd ((#) p) (CastRay_loop k g p1 inc d p' e' p)"
      using False by (simp add: CastRay_loop_Suc p'_def e'_def del: CastRay_loop.simps(2))
    from Suc.prems False step have "c \<in> set (snd (CastRay_loop k g p1 inc d p' e' p))"
      by auto
    from Suc.IH[OF this Suc.prems(2,3)] step show ?thesis by simp
  qed
qed

subsection \<open>The walk on a free grid\<close>

lemma flat_index_less:
  assumes "r < (m::nat)" "c < n"
  shows "r * n + c < m * n"
proof -
  have "r * n + c < r * n + n" using assms by simp
  also have "\<dots> = Suc r * n" by simp
  also have "\<dots> \<le> m * n" using assms(1) by (intro mult_le_mono1) simp
  finally show ?thesis .
qed

lemma all_free_getitem2:
  assumes "all_free g" "in_bounds g p"
  shows "getitem2 g (snd p) (fst p) = 0"
proof -
  from assms(2) have "nat (snd p) < shape0 g" "nat (fst p) < shape1 g"
    by (auto simp: in_bounds_def)
  then have "nat (snd p) * shape1 g + nat (fst p) < length (flat g)"
    using assms(1) by (simp add: all_free_def flat_index_less)
  with assms(1) show ?thesis
    by (simp add: all_free_def getitem2_def list_all_length)
qed

text \<open>
  After \<open>a\<close> steps along x and \<open>b\<close> steps along y the error term is
  \<open>dx - dy - 2 dy a + 2 dx b\<close>. While the target is not reached, a positive error
  means that x steps remain, and a non-positive one that y steps remain: the walk never
  overshoots the target in either axis.
\<close>

lemma x_step_possible:
  fixes a b dx dy :: int
  assumes "0 \<le> a" "a \<le> dx" "0 \<le> b" "b \<le> dy" "a + b < dx + dy"
    and "dx - dy - 2 * dy * a + 2 * dx * b > 0"
  shows "a < dx"
proof (rule ccontr)
  assume "\<not> a < dx"
  with assms have a: "a = dx" and b: "b \<le> dy - 1" by auto
  have "dx * b \<le> dx * (dy - 1)" using b assms(1,2) by (intro mult_left_mono) auto
  then have "dx - dy - 2 * dy * dx + 2 * (dx * b)
               \<le> dx - dy - 2 * dy * dx + 2 * (dx * (dy - 1))"
    by simp
  also have "\<dots> = - dx - dy" by (simp add: algebra_simps)
  finally show False using assms a by (simp add: algebra_simps)
qed

lemma y_step_possible:
  fixes a b dx dy :: int
  assumes "0 \<le> a" "a \<le> dx" "0 \<le> b" "b \<le> dy" "a + b < dx + dy"
    and "\<not> dx - dy - 2 * dy * a + 2 * dx * b > 0"
  shows "b < dy"
proof (rule ccontr)
  assume "\<not> b < dy"
  with assms have b: "b = dy" and a: "a \<le> dx - 1" by auto
  have "dy * a \<le> dy * (dx - 1)" using a assms(3,4) by (intro mult_left_mono) auto
  then have "dx - dy - 2 * (dy * a) + 2 * dx * dy
               \<ge> dx - dy - 2 * (dy * (dx - 1)) + 2 * dx * dy"
    by simp
  moreover have "dx - dy - 2 * (dy * (dx - 1)) + 2 * dx * dy = dx + dy"
    by (simp add: algebra_simps)
  ultimately have "dx - dy - 2 * dy * a + 2 * dx * b \<ge> dx + dy" using b by simp
  with assms a show False by simp
qed

lemma CastRay_loop_free:
  assumes free: "all_free g"
    and inb0: "in_bounds g (x0, y0)" and inb1: "in_bounds g (x1, y1)"
    and dx: "dx = abs (x1 - x0)" and dy: "dy = abs (y1 - y0)"
    and sx: "sx = (if x1 > x0 then 1 else - 1)" and sy: "sy = (if y1 > y0 then 1 else - 1)"
  shows "0 \<le> a \<Longrightarrow> a \<le> dx \<Longrightarrow> 0 \<le> b \<Longrightarrow> b \<le> dy \<Longrightarrow>
         int k = 1 + (dx - a) + (dy - b) \<Longrightarrow>
         fst (CastRay_loop k g (x1, y1) (sx, sy) (2 * dx, 2 * dy)
                (x0 + sx * a, y0 + sy * b) (dx - dy - 2 * dy * a + 2 * dx * b) lp) = (x1, y1)"
proof (induction k arbitrary: a b lp)
  case 0
  then show ?case by simp
next
  case (Suc k)
  let ?p = "(x0 + sx * a, y0 + sy * b)"
  let ?e = "dx - dy - 2 * dy * a + 2 * dx * b"
  have inb: "in_bounds g ?p"
    using inb0 inb1 Suc.prems(1-4) by (auto simp: in_bounds_def dx dy sx sy)
  have fr: "getitem2 g (snd ?p) (fst ?p) = 0"
    by (rule all_free_getitem2[OF free inb])
  show ?case
  proof (cases k)
    case 0
    then show ?thesis using inb fr by (simp add: CastRay_loop_Suc del: CastRay_loop.simps(2))
  next
    case (Suc k')
    with Suc.prems have more: "a + b < dx + dy" by simp
    show ?thesis
    proof (cases "?e > 0")
      case True
      have lt: "a < dx" by (rule x_step_possible[OF Suc.prems(1-4) more True])
      have "fst (CastRay_loop k g (x1, y1) (sx, sy) (2 * dx, 2 * dy)
                   (x0 + sx * (a + 1), y0 + sy * b)
                   (dx - dy - 2 * dy * (a + 1) + 2 * dx * b) ?p) = (x1, y1)"
        using Suc.prems lt by (intro Suc.IH) auto
      moreover have "x0 + sx * (a + 1) = x0 + sx * a + sx"
        "dx - dy - 2 * dy * (a + 1) + 2 * dx * b = ?e - 2 * dy"
        by (simp_all add: algebra_simps)
      ultimately show ?thesis using inb fr True
        by (simp add: CastRay_loop_Suc del: CastRay_loop.simps(2))
    next
      case False
      have lt: "b < dy" by (rule y_step_possible[OF Suc.prems(1-4) more False])
      have "fst (CastRay_loop k g (x1, y1) (sx, sy) (2 * dx, 2 * dy)
                   (x0 + sx * a, y0 + sy * (b + 1))
                   (dx - dy - 2 * dy * a + 2 * dx * (b + 1)) ?p) = (x1, y1)"
        using Suc.prems lt by (intro Suc.IH) auto
      moreover have "y0 + sy * (b + 1) = y0 + sy * b + sy"
        "dx - dy - 2 * dy * a + 2 * dx * (b + 1) = ?e + 2 * dx"
        by (simp_all add: algebra_simps)
      ultimately show ?thesis using inb fr False
        by (simp add: CastRay_loop_Suc del: CastRay_loop.simps(2))
    qed
  qed
qed

subsection \<open>Claims about \<open>_CastRay\<close>\<close>

text \<open>
  C5, as the specification states it: an \<open>unknown\<close> cell (-1) does not stop the ray
  and is passed through exactly like a \<open>free\<close> cell. The code tests
  \<open>grid_data[p[1], p[0]] != 0\<close>, so it does stop: on the one-row grid
  \<open>[free, unknown, free]\<close> the ray from (0,0) to (2,0) returns the unknown cell (1,0),
  while on \<open>[free, free, free]\<close> it returns the target (2,0).
\<close>

theorem CastRay_unknown_blocks_counterexample:
  "CastRay (0, 0) (2, 0) \<lparr>shape0 = 1, shape1 = 3, flat = [0, - 1, 0]\<rparr> = (1, 0) \<and>
   CastRay (0, 0) (2, 0) \<lparr>shape0 = 1, shape1 = 3, flat = [0, 0, 0]\<rparr> = (2, 0)"
  by code_simp

text \<open>
  C5, amended: every in-bounds cell the ray visits whose value is not \<open>free\<close> (0),
  \<open>occupied\<close> (100) and \<open>unknown\<close> (-1) alike, stops the ray and is returned as
  the hit.
\<close>

theorem CastRay_stops_at_nonfree:
  assumes "c \<in> set (CastRay_visited p0 p1 grid_data)"
    and "in_bounds grid_data c"
    and "getitem2 grid_data (snd c) (fst c) \<noteq> 0"
  shows "CastRay p0 p1 grid_data = c"
  using assms unfolding CastRay_def CastRay_visited_def CastRay_run_def Let_def
  by (rule CastRay_loop_hit)

theorem CastRay_stops_at_nonfree_witness:
  "(1, 0) \<in> set (CastRay_visited (0, 0) (2, 0) \<lparr>shape0 = 1, shape1 = 3, flat = [0, - 1, 0]\<rparr>) \<and>
   in_bounds \<lparr>shape0 = 1, shape1 = 3, flat = [0, - 1, 0]\<rparr> (1, 0) \<and>
   getitem2 \<lparr>shape0 = 1, shape1 = 3, flat = [0, - 1, 0]\<rparr> (snd (1 :: int, 0 :: int)) (fst (1 :: int, 0 :: int)) = - 1 \<and>
   CastRay (0, 0) (2, 0) \<lparr>shape0 = 1, shape1 = 3, flat = [0, - 1, 0]\<rparr> = (1, 0)"
proof -
  let ?g = "\<lparr>shape0 = 1, shape1 = 3, flat = [0, - 1, 0]\<rparr>"
  have v: "(1, 0) \<in> set (CastRay_visited (0, 0) (2, 0) ?g)" by code_simp
  have b: "in_bounds ?g (1, 0)" by code_simp
  have u: "getitem2 ?g (snd (1 :: int, 0 :: int)) (fst (1 :: int, 0 :: int)) = - 1" by code_simp
  then have n: "getitem2 ?g (snd (1 :: int, 0 :: int)) (fst (1 :: int, 0 :: int)) \<noteq> 0" by simp
  from CastRay_stops_at_nonfree[OF v b n] v b u show ?thesis by simp
qed

text \<open>
  C7, as the specification states it: when the walk visits a cell outside the grid it
  returns the last in-bounds cell visited, also when the origin itself is outside. With
  the origin (-1,0) outside a one-cell grid the only cell visited is the origin, and
  the cell returned is the origin, which is not in bounds.
\<close>

theorem CastRay_origin_outside_counterexample:
  "CastRay_visited (- 1, 0) (0, 0) \<lparr>shape0 = 1, shape1 = 1, flat = [0]\<rparr> = [(- 1, 0)] \<and>
   CastRay (- 1, 0) (0, 0) \<lparr>shape0 = 1, shape1 = 1, flat = [0]\<rparr> = (- 1, 0) \<and>
   \<not> in_bounds \<lparr>shape0 = 1, shape1 = 1, flat = [0]\<rparr> (CastRay (- 1, 0) (0, 0) \<lparr>shape0 = 1, shape1 = 1, flat = [0]\<rparr>)"
  by code_simp

text \<open>
  C7, amended: when the walk visits a cell outside the grid, it returns the last
  in-bounds cell it visited if the origin cell is in bounds, and the origin cell itself
  (\<open>last_p\<close> as initialised) if the origin is out of bounds.
\<close>

theorem CastRay_out_of_bounds:
  assumes "c \<in> set (CastRay_visited p0 p1 grid_data)"
    and "\<not> in_bounds grid_data c"
  shows "CastRay p0 p1 grid_data =
           (if in_bounds grid_data p0
            then last (filter (in_bounds grid_data) (CastRay_visited p0 p1 grid_data))
            else p0)"
  using assms unfolding CastRay_def CastRay_visited_def CastRay_run_def Let_def
  by (rule CastRay_loop_out_of_bounds)

theorem CastRay_out_of_bounds_witness:
  "(3, 0) \<in> set (CastRay_visited (1, 0) (4, 0) \<lparr>shape0 = 1, shape1 = 3, flat = [0, 0, 0]\<rparr>) \<and>
   \<not> in_bounds \<lparr>shape0 = 1, shape1 = 3, flat = [0, 0, 0]\<rparr> (3, 0) \<and>
   in_bounds \<lparr>shape0 = 1, shape1 = 3, flat = [0, 0, 0]\<rparr> (1, 0) \<and>
   CastRay_visited (1, 0) (4, 0) \<lparr>shape0 = 1, shape1 = 3, flat = [0, 0, 0]\<rparr> = [(1, 0), (2, 0), (3, 0)] \<and>
   CastRay (1, 0) (4, 0) \<lparr>shape0 = 1, shape1 = 3, flat = [0, 0, 0]\<rparr> = (2, 0)"
proof -
  let ?g = "\<lparr>shape0 = 1, shape1 = 3, flat = [0, 0, 0]\<rparr>"
  have vs: "CastRay_visited (1, 0) (4, 0) ?g = [(1, 0), (2, 0), (3, 0)]" by code_simp
  have v: "(3, 0) \<in> set (CastRay_visited (1, 0) (4, 0) ?g)" by code_simp
  have o: "\<not> in_bounds ?g (3, 0)" by code_simp
  have i: "in_bounds ?g (1, 0)" by code_simp
  have f: "last (filter (in_bounds ?g) (CastRay_visited (1, 0) (4, 0) ?g)) = (2, 0)"
    by code_simp
  have "CastRay (1, 0) (4, 0) ?g = (2, 0)"
    using CastRay_out_of_bounds[OF v o] unfolding f using i by (simp only: if_True)
  with v o i vs show ?thesis by (intro conjI)
qed

text \<open>
  C8: on a grid whose cells are all free, with the origin cell and the target cell both
  in bounds, \<open>_CastRay\<close> returns the target cell.
\<close>

theorem CastRay_free_grid_returns_target:
  assumes "all_free grid_data" "in_bounds grid_data p0" "in_bounds grid_data p1"
  shows "CastRay p0 p1 grid_data = p1"
proof -
  obtain x0 y0 where p0: "p0 = (x0, y0)" by (cases p0)
  obtain x1 y1 where p1: "p1 = (x1, y1)" by (cases p1)
  define dx dy where "dx = abs (x1 - x0)" and "dy = abs (y1 - y0)"
  define sx sy :: int
    where "sx = (if x1 > x0 then 1 else - 1)" and "sy = (if y1 > y0 then 1 else - 1)"
  have "fst (CastRay_loop (nat (1 + (dx + dy))) grid_data (x1, y1) (sx, sy) (2 * dx, 2 * dy)
               (x0 + sx * 0, y0 + sy * 0) (dx - dy - 2 * dy * 0 + 2 * dx * 0) (x0, y0))
          = (x1, y1)"
    using assms unfolding p0 p1
    by (intro CastRay_loop_free[where ?x0.0 = x0 and ?y0.0 = y0])
       (auto simp: dx_def dy_def sx_def sy_def)
  then show ?thesis
    by (simp add: CastRay_def CastRay_run_def Let_def p0 p1 dx_def dy_def sx_def sy_def
             del: CastRay_loop.simps(2))
qed

theorem CastRay_free_grid_returns_target_witness:
  "all_free \<lparr>shape0 = 3, shape1 = 3, flat = [0, 0, 0, 0, 0, 0, 0, 0, 0]\<rparr> \<and>
   in_bounds \<lparr>shape0 = 3, shape1 = 3, flat = [0, 0, 0, 0, 0, 0, 0, 0, 0]\<rparr> (2, 0) \<and>
   in_bounds \<lparr>shape0 = 3, shape1 = 3, flat = [0, 0, 0, 0, 0, 0, 0, 0, 0]\<rparr> (0, 2) \<and>
   CastRay (2, 0) (0, 2) \<lparr>shape0 = 3, shape1 = 3, flat = [0, 0, 0, 0, 0, 0, 0, 0, 0]\<rparr> = (0, 2)"
proof -
  let ?g = "\<lparr>shape0 = 3, shape1 = 3, flat = [0, 0, 0, 0, 0, 0, 0, 0, 0]\<rparr>"
  have a: "all_free ?g" by code_simp
  have b: "in_bounds ?g (2, 0)" by code_simp
  have c: "in_bounds ?g (0, 2)" by code_simp
  from CastRay_free_grid_returns_target[OF a b c] a b c show ?thesis by simp
qed

text \<open>
  C9: for every origin cell, target cell and grid, \<open>_CastRay\<close> returns after visiting at
  most \<open>1 + |\<Delta>row| + |\<Delta>col|\<close> cells. (The loop is \<open>for i in range(n)\<close>, so the
  function is total; the bound is on the cells it visits.)
\<close>

theorem CastRay_visits_bounded:
  "int (length (CastRay_visited p0 p1 grid_data))
     \<le> 1 + abs (snd p1 - snd p0) + abs (fst p1 - fst p0)"
proof -
  have "length (CastRay_visited p0 p1 grid_data)
          \<le> nat (1 + (abs (fst p1 - fst p0) + abs (snd p1 - snd p0)))"
    unfolding CastRay_visited_def CastRay_run_def Let_def fst_conv snd_conv
    by (rule CastRay_loop_length)
  then show ?thesis by linarith
qed

section \<open>Coordinates\<close>

lemma astype_int32_floor_iff:
  "(astype_int32 x = \<lfloor>x\<rfloor>) = (0 \<le> x \<or> x \<in> \<int>)"
proof (cases "0 \<le> x")
  case True
  then show ?thesis by (simp add: astype_int32_def)
next
  case False
  have "(- \<lfloor>- x\<rfloor> = \<lfloor>x\<rfloor>) = (x \<in> \<int>)"
  proof
    assume "- \<lfloor>- x\<rfloor> = \<lfloor>x\<rfloor>"
    then have "\<lceil>x\<rceil> = \<lfloor>x\<rfloor>" by (simp add: ceiling_def)
    then show "x \<in> \<int>"
      by (metis ceiling_altdef Ints_of_int add_cancel_left_right zero_neq_one)
  next
    assume "x \<in> \<int>"
    then show "- \<lfloor>- x\<rfloor> = \<lfloor>x\<rfloor>" by (auto elim!: Ints_cases)
  qed
  with False show ?thesis by (simp add: astype_int32_def)
qed

lemma astype_int32_trunc:
  "astype_int32 x = (if 0 \<le> x then \<lfloor>x\<rfloor> else \<lceil>x\<rceil>)"
  by (simp add: astype_int32_def ceiling_def)

text \<open>
  C6, as the specification states it: \<open>WorldToGrid(p)\<close> is the componentwise floor of
  \<open>(p - origin.translation) / resolution\<close>, also for a negative component. On the
  example map (origin (0,0), resolution 1) the point (-0.5, 0) is mapped to the cell
  (0, 0); the floor is (-1, 0).
\<close>

theorem WorldToGrid_floor_counterexample:
  "WorldToGrid corridor (- 1 / 2, 0) = (0, 0) \<and>
   (\<lfloor>(fst (- 1 / 2 :: real, 0 :: real) - fst (translation (world_T_map corridor)))
       / resolution corridor\<rfloor>,
    \<lfloor>(snd (- 1 / 2 :: real, 0 :: real) - snd (translation (world_T_map corridor)))
       / resolution corridor\<rfloor>) = (- 1, 0)"
  by (simp add: WorldToGrid_def corridor_def astype_int32_def)

text \<open>
  C6, amended: for a grid of non-zero resolution and a point whose quotients
  \<open>(p - origin.translation) / resolution\<close> lie in the 32-bit range, \<open>WorldToGrid(p)\<close>
  is the componentwise truncation toward zero of the quotient: its floor where the
  component is non-negative, its ceiling where it is negative. It equals the
  componentwise floor exactly when every component is non-negative or an integer.
\<close>

theorem WorldToGrid_truncates:
  assumes "resolution g \<noteq> 0"
    and "int32_range ((fst point - fst (translation (world_T_map g))) / resolution g)"
    and "int32_range ((snd point - snd (translation (world_T_map g))) / resolution g)"
  shows "WorldToGrid g point =
           ((if 0 \<le> (fst point - fst (translation (world_T_map g))) / resolution g
             then \<lfloor>(fst point - fst (translation (world_T_map g))) / resolution g\<rfloor>
             else \<lceil>(fst point - fst (translation (world_T_map g))) / resolution g\<rceil>),
            (if 0 \<le> (snd point - snd (translation (world_T_map g))) / resolution g
             then \<lfloor>(snd point - snd (translation (world_T_map g))) / resolution g\<rfloor>
             else \<lceil>(snd point - snd (translation (world_T_map g))) / resolution g\<rceil>)) \<and>
         (WorldToGrid g point =
            (\<lfloor>(fst point - fst (translation (world_T_map g))) / resolution g\<rfloor>,
             \<lfloor>(snd point - snd (translation (world_T_map g))) / resolution g\<rfloor>)) =
         ((0 \<le> (fst point - fst (translation (world_T_map g))) / resolution g \<or>
           (fst point - fst (translation (world_T_map g))) / resolution g \<in> \<int>) \<and>
          (0 \<le> (snd point - snd (translation (world_T_map g))) / resolution g \<or>
           (snd point - snd (translation (world_T_map g))) / resolution g \<in> \<int>))"
  unfolding WorldToGrid_def prod.inject astype_int32_floor_iff
  by (simp add: astype_int32_trunc)

theorem WorldToGrid_truncates_witness:
  "resolution corridor \<noteq> 0 \<and>
   int32_range ((fst (- 1 / 2 :: real, 3 / 2 :: real) - fst (translation (world_T_map corridor)))
                  / resolution corridor) \<and>
   int32_range ((snd (- 1 / 2 :: real, 3 / 2 :: real) - snd (translation (world_T_map corridor)))
                  / resolution corridor) \<and>
   WorldToGrid corridor (- 1 / 2, 3 / 2) = (0, 1)"
proof -
  have a: "resolution corridor \<noteq> 0" by (simp add: corridor_def)
  have b: "int32_range ((fst (- 1 / 2 :: real, 3 / 2 :: real)
              - fst (translation (world_T_map corridor))) / resolution corridor)"
    by (simp add: corridor_def int32_range_def)
  have c: "int32_range ((snd (- 1 / 2 :: real, 3 / 2 :: real)
              - snd (translation (world_T_map corridor))) / resolution corridor)"
    by (simp add: corridor_def int32_range_def)
  have "WorldToGrid corridor (- 1 / 2, 3 / 2) = (0, 1)"
    using WorldToGrid_truncates[OF a b c] by (simp add: corridor_def ceiling_def)
  with a b c show ?thesis by (intro conjI)
qed

section \<open>The motion update\<close>

text \<open>
  C10: \<open>Particle.UpdateOdom\<close> changes, in the whole store, only the pose and the
  last-odometry timestamp of the particle it is called on. The particle's weight and
  its grid reference are unchanged, and so is every grid object (rows, cols,
  resolution, origin, cell data).
\<close>

theorem Particle_UpdateOdom_frame:
  "fst (Particle_UpdateOdom self m h r) =
     h\<lparr>particle_objs := (particle_objs h)(self :=
          (particle_objs h self)
            \<lparr>last_odom_timestamp := Some (odom_stamp m),
             map_T_particle :=
               map_T_particle (particle_objs (fst (Particle_UpdateOdom self m h r)) self)\<rparr>)\<rparr> \<and>
   weight (particle_objs (fst (Particle_UpdateOdom self m h r)) self) =
     weight (particle_objs h self) \<and>
   grid (particle_objs (fst (Particle_UpdateOdom self m h r)) self) =
     grid (particle_objs h self) \<and>
   grid_objs (fst (Particle_UpdateOdom self m h r)) = grid_objs h"
  by (simp add: Particle_UpdateOdom_def Let_def split_def)

section \<open>The sensor update\<close>

lemma beam_loop_eq:
  "length zs \<le> length ss \<Longrightarrow>
   beam_loop F zs ss w =
     Inr (if zs = [] then w
          else PyFloat (foldl (fmul F) (pyvalue w) (map2 (beam_likelihood F) zs ss)))"
proof (induction F zs ss w rule: beam_loop.induct)
  case (1 F sim_ranges weights)
  then show ?case by simp
next
  case (2 F z zs weights)
  then show ?case by simp
next
  case (3 F z zs s ss weights)
  then show ?case by simp
qed

lemma length_ComputeSimulatedRanges:
  "length (Particle_ComputeSimulatedRanges p g scan) = length (angles scan)"
  by (simp add: Particle_ComputeSimulatedRanges_def ComputeSimulatedRanges_def Let_def)

lemma length_linspace: "length (linspace a b n) = n"
  by (simp add: linspace_def)

lemma Scan_init_lengths:
  "length (ranges (Scan_init m)) \<le> length (Particle_ComputeSimulatedRanges p g (Scan_init m))"
  by (simp add: length_ComputeSimulatedRanges) (simp add: Scan_init_def length_linspace)

lemma UpdateScan_loop_const:
  assumes step: "\<And>h b. Q h \<Longrightarrow> Particle_UpdateScan F b scan h =
        (None, h\<lparr>particle_objs := (particle_objs h)(b := (particle_objs h b)\<lparr>weight := w\<rparr>)\<rparr>)"
    and pres: "\<And>h b. Q h \<Longrightarrow>
        Q (h\<lparr>particle_objs := (particle_objs h)(b := (particle_objs h b)\<lparr>weight := w\<rparr>)\<rparr>)"
  shows "Q h \<Longrightarrow> UpdateScan_loop F as scan h =
     (None, h\<lparr>particle_objs :=
        (\<lambda>b. if b \<in> set as then (particle_objs h b)\<lparr>weight := w\<rparr> else particle_objs h b)\<rparr>)"
proof (induction as arbitrary: h)
  case Nil
  then show ?case by simp
next
  case (Cons a as)
  let ?h1 = "h\<lparr>particle_objs := (particle_objs h)(a := (particle_objs h a)\<lparr>weight := w\<rparr>)\<rparr>"
  have q1: "Q ?h1" by (rule pres[OF Cons.prems])
  have "(\<lambda>b. if b \<in> set as then (particle_objs ?h1 b)\<lparr>weight := w\<rparr> else particle_objs ?h1 b)
      = (\<lambda>b. if b \<in> set (a # as) then (particle_objs h b)\<lparr>weight := w\<rparr> else particle_objs h b)"
    by (auto simp: fun_eq_iff)
  then show ?case
    by (simp add: step[OF Cons.prems] Cons.IH[OF q1])
qed

lemma Particle_UpdateScan_no_beams:
  "ranges scan = [] \<Longrightarrow> Particle_UpdateScan F b scan h =
     (None, h\<lparr>particle_objs := (particle_objs h)(b := (particle_objs h b)\<lparr>weight := PyInt (10 ^ 300)\<rparr>)\<rparr>)"
  by (simp add: Particle_UpdateScan_def Let_def del: power_numeral)



lemma corridor_ray:
  "CastRay (0, 0) (5, 0) \<lparr>shape0 = 2, shape1 = 3, flat = [0, 0, 100, 0, 0, 0]\<rparr> = (2, 0)"
  by code_simp

lemma corridor_sim_ranges:
  assumes "map_T_particle p = \<lparr>rotation = 0, translation = (1 / 2, 1 / 2)\<rparr>"
    and "angles scan = [0]" "range_max scan = 5"
  shows "Particle_ComputeSimulatedRanges p corridor scan = [2]"
  by (simp add: Particle_ComputeSimulatedRanges_def ComputeSimulatedRanges_def Let_def assms
      corridor_def astype_int32_def corridor_ray)

lemma Scan_init_one_beam:
  "angles (Scan_init one_beam) = [0]" "range_max (Scan_init one_beam) = 5"
  "ranges (Scan_init one_beam) = [2]"
  by (simp_all add: Scan_init_def one_beam_def linspace_def)

lemma Scan_init_far_beam:
  "angles (Scan_init far_beam) = [0]" "range_max (Scan_init far_beam) = 5"
  "ranges (Scan_init far_beam) = [1000]"
  by (simp_all add: Scan_init_def far_beam_def linspace_def)

lemma beam_likelihood_underflow: "beam_likelihood underflow_ops 1000 2 = 0"
  by (simp add: beam_likelihood_def underflow_ops_def exact_ops_def SENSOR_MODEL_VAR_def
      power2_eq_square)

lemma Particle_UpdateScan_far_beam:
  assumes "(\<forall>b. map_T_particle (particle_objs h b) =
              \<lparr>rotation = 0, translation = (1 / 2, 1 / 2)\<rparr>) \<and>
           grid_objs h = (\<lambda>a. corridor)"
  shows "Particle_UpdateScan underflow_ops b (Scan_init far_beam) h =
     (None, h\<lparr>particle_objs := (particle_objs h)(b :=
        (particle_objs h b)\<lparr>weight := PyFloat (1 / 10 ^ 300)\<rparr>)\<rparr>)"
proof -
  have p: "map_T_particle (particle_objs h b) = \<lparr>rotation = 0, translation = (1 / 2, 1 / 2)\<rparr>"
    and g: "grid_objs h (grid (particle_objs h b)) = corridor"
    using assms by simp_all
  have m: "fmul underflow_ops 1 0 = 0" by (simp add: underflow_ops_def exact_ops_def)
  show ?thesis
    unfolding Particle_UpdateScan_def Let_def g
      corridor_sim_ranges[OF p Scan_init_far_beam(1,2)] Scan_init_far_beam(3)
    by (simp add: beam_likelihood_underflow m del: power_numeral)
qed

lemma crowd_far_beam:
  "UpdateScan_loop underflow_ops (particles crowd) (Scan_init far_beam) crowd_heap =
     (None, scanned_heap)"
proof -
  have q: "(\<forall>b. map_T_particle (particle_objs crowd_heap b) =
              \<lparr>rotation = 0, translation = (1 / 2, 1 / 2)\<rparr>) \<and>
           grid_objs crowd_heap = (\<lambda>a. corridor)"
    by (simp add: crowd_heap_def corridor_heap_def)
  have "UpdateScan_loop underflow_ops (particles crowd) (Scan_init far_beam) crowd_heap =
     (None, crowd_heap\<lparr>particle_objs :=
        (\<lambda>b. if b \<in> set (particles crowd)
             then (particle_objs crowd_heap b)\<lparr>weight := PyFloat (1 / 10 ^ 300)\<rparr>
             else particle_objs crowd_heap b)\<rparr>)"
    by (rule UpdateScan_loop_const[where
          Q = "\<lambda>h. (\<forall>b. map_T_particle (particle_objs h b) =
                        \<lparr>rotation = 0, translation = (1 / 2, 1 / 2)\<rparr>) \<and>
                    grid_objs h = (\<lambda>a. corridor)", OF _ _ q])
       (simp_all add: Particle_UpdateScan_far_beam)
  then show ?thesis by (simp only: scanned_heap_def)
qed

lemma corridor_weight:
  "weight (particle_objs (snd (Particle_UpdateScan exact_ops 0 (Scan_init one_beam) corridor_heap)) 0)
     = PyFloat (10 ^ 300 / (15 * sqrt (2 * pi)))"
proof -
  have p: "map_T_particle (particle_objs corridor_heap 0) =
             \<lparr>rotation = 0, translation = (1 / 2, 1 / 2)\<rparr>"
    and g: "grid_objs corridor_heap (grid (particle_objs corridor_heap 0)) = corridor"
    by (simp_all add: corridor_heap_def)
  show ?thesis
    unfolding Particle_UpdateScan_def Let_def g
      corridor_sim_ranges[OF p Scan_init_one_beam(1,2)] Scan_init_one_beam(3)
    by (simp add: beam_likelihood_def exact_ops_def SENSOR_MODEL_VAR_def)
qed

lemma sqrt_2pi_less_3: "sqrt (2 * pi) < 3"
proof -
  have "2 * pi < 3\<^sup>2" using pi_less_4 by simp
  then have "sqrt (2 * pi) < sqrt (3\<^sup>2)" by (simp only: real_sqrt_less_iff)
  then show ?thesis by simp
qed

lemma corridor_weight_gt_1: "(1::real) < 10 ^ 300 / (15 * sqrt (2 * pi))"
proof -
  have "15 * sqrt (2 * pi) < (45::real)" using sqrt_2pi_less_3 by simp
  also have "(45::real) < 10 ^ 300" by simp
  finally have "15 * sqrt (2 * pi) < (10::real) ^ 300" .
  moreover have "0 < 15 * sqrt (2 * pi)" by simp
  ultimately show ?thesis by (simp add: less_divide_eq)
qed

lemma spec_gaussian_pdf_at_mean_less_1: "spec_gaussian_pdf 2 2 SENSOR_MODEL_VAR < 1"
proof -
  have "1 < 30 * pi" using pi_ge_two by simp
  then have "sqrt 1 < sqrt (30 * pi)" by (simp only: real_sqrt_less_iff)
  then show ?thesis by (simp add: spec_gaussian_pdf_def SENSOR_MODEL_VAR_def)
qed

lemma corridor_no_beams_weight:
  "weight (particle_objs
     (snd (Particle_UpdateScan exact_ops 0 (Scan_init no_beams) corridor_heap)) 0) =
   PyInt (10 ^ 300)"
  by (simp add: Particle_UpdateScan_no_beams Scan_init_def no_beams_def del: power_numeral)

text \<open>
  C2, as the specification states it: the weight the sensor update assigns is the
  product over all beams of the Gaussian density of \<open>scan.ranges[i]\<close> with mean
  \<open>sim_ranges[i]\<close> and variance \<open>SENSOR_MODEL_VAR\<close>. For the example particle and the
  scan with no beams that product is the empty product 1, and the sensor update assigns
  the \<open>int\<close> \<open>10**300\<close>. For the scan whose one beam measures exactly the simulated
  range 2, with exact arithmetic, the product is below 1 and the assigned weight is
  above 1.
\<close>

theorem Particle_UpdateScan_gaussian_counterexample:
  "weight (particle_objs
      (snd (Particle_UpdateScan exact_ops 0 (Scan_init no_beams) corridor_heap)) 0) =
     PyInt (10 ^ 300) \<and>
   prod_list (map2 (\<lambda>z s. spec_gaussian_pdf z s SENSOR_MODEL_VAR) (ranges (Scan_init no_beams))
     (Particle_ComputeSimulatedRanges (particle_objs corridor_heap 0)
        (grid_objs corridor_heap (grid (particle_objs corridor_heap 0))) (Scan_init no_beams))) = 1 \<and>
   pyvalue (weight (particle_objs
      (snd (Particle_UpdateScan exact_ops 0 (Scan_init one_beam) corridor_heap)) 0)) \<noteq>
   prod_list (map2 (\<lambda>z s. spec_gaussian_pdf z s SENSOR_MODEL_VAR) (ranges (Scan_init one_beam))
     (Particle_ComputeSimulatedRanges (particle_objs corridor_heap 0)
        (grid_objs corridor_heap (grid (particle_objs corridor_heap 0))) (Scan_init one_beam)))"
proof -
  have p: "map_T_particle (particle_objs corridor_heap 0) =
             \<lparr>rotation = 0, translation = (1 / 2, 1 / 2)\<rparr>"
    and g: "grid_objs corridor_heap (grid (particle_objs corridor_heap 0)) = corridor"
    by (simp_all add: corridor_heap_def)
  have e: "prod_list (map2 (\<lambda>z s. spec_gaussian_pdf z s SENSOR_MODEL_VAR)
          (ranges (Scan_init no_beams))
          (Particle_ComputeSimulatedRanges (particle_objs corridor_heap 0)
             (grid_objs corridor_heap (grid (particle_objs corridor_heap 0)))
             (Scan_init no_beams))) = 1"
    by (simp add: Scan_init_def no_beams_def)
  have "prod_list (map2 (\<lambda>z s. spec_gaussian_pdf z s SENSOR_MODEL_VAR)
          (ranges (Scan_init one_beam))
          (Particle_ComputeSimulatedRanges (particle_objs corridor_heap 0)
             (grid_objs corridor_heap (grid (particle_objs corridor_heap 0)))
             (Scan_init one_beam))) = spec_gaussian_pdf 2 2 SENSOR_MODEL_VAR"
    (is "?rhs = _")
    unfolding g corridor_sim_ranges[OF p Scan_init_one_beam(1,2)] Scan_init_one_beam(3)
    by simp
  then have "?rhs < 1" using spec_gaussian_pdf_at_mean_less_1 by (simp only:)
  moreover have
    "1 < pyvalue (weight (particle_objs
           (snd (Particle_UpdateScan exact_ops 0 (Scan_init one_beam) corridor_heap)) 0))"
    using corridor_weight_gt_1 by (simp only: corridor_weight pyvalue.simps)
  ultimately have n: "pyvalue (weight (particle_objs
      (snd (Particle_UpdateScan exact_ops 0 (Scan_init one_beam) corridor_heap)) 0)) \<noteq> ?rhs"
    by linarith
  from corridor_no_beams_weight e n show ?thesis by (intro conjI)
qed

text \<open>
  C2, amended: for every particle, grid and scan built from a scan message, and whatever
  the \<open>float64\<close> operations compute, the sensor update returns normally and assigns the
  weight as follows. For a scan with no beams the weight is the \<open>int\<close> \<open>10**300\<close>.
  Otherwise let \<open>P\<close> be the product, accumulated from 1 beam by beam in \<open>float64\<close>, of the
  per-beam terms \<open>(1 / (sqrt(2 pi) V)) exp(-0.5 ((z - s) / V)\<^sup>2)\<close>, where \<open>z\<close> is the
  measured range, \<open>s\<close> the simulated range and \<open>V\<close> is \<open>SENSOR_MODEL_VAR\<close>; the weight is
  the float \<open>10**(-300)\<close> if \<open>P\<close> is zero, and \<open>P\<close> times \<open>10**300\<close> otherwise.
\<close>

theorem Particle_UpdateScan_weight:
  "Particle_UpdateScan F self (Scan_init m) h =
     (None,
      h\<lparr>particle_objs := (particle_objs h)(self :=
           (particle_objs h self)
             \<lparr>weight :=
                (if msg_ranges m = [] then PyInt (10 ^ 300)
                 else (let P = foldl (fmul F) 1
                                 (map2 (\<lambda>z s.
                                      fmul F
                                        (fdiv F 1 (fmul F (fsqrt F (fmul F 2 pi))
                                                      SENSOR_MODEL_VAR))
                                        (fexp F (fmul F (- 0.5)
                                           (fsquare F (fdiv F (fsub F z s)
                                                         SENSOR_MODEL_VAR)))))
                                    (msg_ranges m)
                                    (Particle_ComputeSimulatedRanges (particle_objs h self)
                                       (grid_objs h (grid (particle_objs h self)))
                                       (Scan_init m)))
                       in if P = 0 then PyFloat (1 / 10 ^ 300)
                          else PyFloat (fmul F P (10 ^ 300))))\<rparr>)\<rparr>)"
proof -
  have r: "ranges (Scan_init m) = msg_ranges m" by (simp add: Scan_init_def)
  have b: "beam_likelihood F =
      (\<lambda>z s. fmul F (fdiv F 1 (fmul F (fsqrt F (fmul F 2 pi)) SENSOR_MODEL_VAR))
                (fexp F (fmul F (- 0.5) (fsquare F (fdiv F (fsub F z s) SENSOR_MODEL_VAR)))))"
    by (simp add: fun_eq_iff beam_likelihood_def)
  show ?thesis
    unfolding Particle_UpdateScan_def Let_def beam_loop_eq[OF Scan_init_lengths] b
    by (simp add: r del: power_numeral)
qed

section \<open>The particle population\<close>

lemma init_particles_length:
  "init_particles n g h r = Some (Inr (as, h', r')) \<Longrightarrow> length as = n"
proof (induction n arbitrary: h r as h' r')
  case 0
  then show ?case by simp
next
  case (Suc n)
  then show ?case
    by (auto split: option.splits sum.splits prod.splits)
qed

lemma assign_loop_length: "length (snd (assign_loop ps new is)) = length ps"
  by (induction "is" arbitrary: ps) (auto split: sum.splits)

lemma Resample_length:
  "length (particles (fst (snd (Resample pf drawn h)))) = length (particles pf)"
proof -
  have a: "length (snd (assign_loop (particles pf) new is)) = length (particles pf)" for new "is"
    by (rule assign_loop_length)
  show ?thesis
    by (auto simp: Resample_def Resample_run_def split: sum.splits prod.splits)
       (metis a snd_conv)
qed

text \<open>
  C3: the population has exactly N particles at every observable instant: a filter
  constructed for \<open>num_particles\<close> particles has that many, and the list of
  particles has the same length after \<open>UpdateOdom\<close> and after \<open>UpdateScan\<close> as
  before, whether the call returned or raised (for fewer than \<open>NUM_PARTICLES\<close>
  particles \<open>UpdateScan\<close> raises \<open>IndexError\<close> and resamples nothing), and whatever
  the \<open>float64\<close> operations compute.
\<close>

theorem particle_count_invariant:
  "(ParticleFilter_init grid_ref num_particles h r = Some (Inr (pf, h', r')) \<longrightarrow>
      length (particles pf) = num_particles) \<and>
   length (particles (fst (ParticleFilter_UpdateOdom pf0 om h0 r0))) = length (particles pf0) \<and>
   length (particles (fst (snd (ParticleFilter_UpdateScan F pf0 sm drawn h0)))) =
     length (particles pf0)"
proof (intro conjI impI)
  assume "ParticleFilter_init grid_ref num_particles h r = Some (Inr (pf, h', r'))"
  then show "length (particles pf) = num_particles"
    by (auto simp: ParticleFilter_init_def split: option.splits sum.splits prod.splits
             dest: init_particles_length)
next
  show "length (particles (fst (ParticleFilter_UpdateOdom pf0 om h0 r0))) = length (particles pf0)"
    by (simp add: ParticleFilter_UpdateOdom_def Let_def split: option.splits prod.splits)
next
  show "length (particles (fst (snd (ParticleFilter_UpdateScan F pf0 sm drawn h0)))) =
     length (particles pf0)"
    by (simp add: ParticleFilter_UpdateScan_def Let_def Resample_length
             split: option.splits prod.splits)
qed

lemma corridor_free: "GetWorldCoords corridor (3 / 4, 1 / 2) = Inr 0"
  by (simp add: GetWorldCoords_def WorldToGrid_def corridor_def astype_int32_def np_index_def)

lemma sample1: "sample_translation corridor (0, 0) (3, 2) (sconst (1 / 4)) =
   Some (Inr ((3 / 4, 1 / 2), sconst (1 / 4)))"
  by (subst sample_translation.simps) (simp add: np_random_uniform2_def corridor_free)

lemma corridor_Particle_init:
  assumes "grid_objs h = (\<lambda>a. corridor)"
  shows "Particle_init 0 h (sconst (1 / 4)) =
     Some (Inr (next_particle h,
       h\<lparr>particle_objs := (particle_objs h)(next_particle h :=
             \<lparr>grid = 0,
              map_T_particle = \<lparr>rotation = - pi + (pi - - pi) * (1 / 4), translation = (3 / 4, 1 / 2)\<rparr>,
              last_odom_timestamp = None, weight = PyInt 1\<rparr>),
          next_particle := Suc (next_particle h)\<rparr>,
       sconst (1 / 4)))"
proof -
  have g: "grid_objs h 0 = corridor" by (simp add: assms)
  have t: "translation (world_T_map corridor) = (0, 0)" "map_t_extents corridor = (3, 2)"
    by (simp_all add: corridor_def)
  show ?thesis
    unfolding Particle_init_def Let_def g t
    by (simp add: sample1 np_random_uniform_def)
qed

lemma corridor_init_particles:
  "grid_objs h = (\<lambda>a. corridor) \<Longrightarrow>
   \<exists>as h'. init_particles n 0 h (sconst (1 / 4)) = Some (Inr (as, h', sconst (1 / 4)))"
proof (induction n arbitrary: h)
  case 0
  then show ?case by simp
next
  case (Suc n)
  let ?h1 = "h\<lparr>particle_objs := (particle_objs h)(next_particle h :=
             \<lparr>grid = 0,
              map_T_particle = \<lparr>rotation = - pi + (pi - - pi) * (1 / 4), translation = (3 / 4, 1 / 2)\<rparr>,
              last_odom_timestamp = None, weight = PyInt 1\<rparr>),
          next_particle := Suc (next_particle h)\<rparr>"
  have "grid_objs ?h1 = (\<lambda>a. corridor)" using Suc.prems by simp
  from Suc.IH[OF this] obtain as h' where
    eq: "init_particles n 0 ?h1 (sconst (1 / 4)) = Some (Inr (as, h', sconst (1 / 4)))" by blast
  show ?case
    by (simp only: init_particles.simps corridor_Particle_init[OF Suc.prems]
          option.case sum.case prod.case eq) blast
qed

theorem particle_count_invariant_witness:
  "\<exists>pf h' r'. ParticleFilter_init 0 2 corridor_heap (sconst (1 / 4)) = Some (Inr (pf, h', r')) \<and>
     length (particles pf) = 2"
proof -
  have "grid_objs corridor_heap = (\<lambda>a. corridor)" by (simp add: corridor_heap_def)
  from corridor_init_particles[OF this, of 2] obtain as h' where
    "init_particles 2 0 corridor_heap (sconst (1 / 4)) = Some (Inr (as, h', sconst (1 / 4)))"
    by blast
  then have i: "ParticleFilter_init 0 2 corridor_heap (sconst (1 / 4)) =
      Some (Inr (\<lparr>pf_grid = 0, last_timestamp = None, particles = as\<rparr>, h', sconst (1 / 4)))"
    by (simp add: ParticleFilter_init_def)
  from particle_count_invariant[of 0 2 corridor_heap "sconst (1 / 4)"
      "\<lparr>pf_grid = 0, last_timestamp = None, particles = as\<rparr>" h' "sconst (1 / 4)"] i
  have "length (particles \<lparr>pf_grid = 0, last_timestamp = None, particles = as\<rparr>) = 2" by blast
  with i show ?thesis by blast
qed

section \<open>Resampling\<close>

lemma getitem_Inr: "i < length xs \<Longrightarrow> getitem xs i = Inr (xs ! i)"
  by (simp add: getitem_def)

lemma getitem_Inl: "\<not> i < length xs \<Longrightarrow> getitem xs i = Inl IndexError"
  by (simp add: getitem_def)

lemma prob_loop_ok:
  "list_all (\<lambda>i. i < length ps) is \<Longrightarrow>
   prob_loop ps h is = Inr (map (\<lambda>i. weight (particle_objs h (ps ! i))) is)"
  by (induction "is") (simp_all add: getitem_Inr)

lemma prob_loop_fail:
  "\<not> list_all (\<lambda>i. i < length ps) is \<Longrightarrow> prob_loop ps h is = Inl IndexError"
proof (induction "is")
  case Nil
  then show ?case by simp
next
  case (Cons i rest)
  show ?case
  proof (cases "i < length ps")
    case False
    then show ?thesis by (simp add: getitem_Inl)
  next
    case True
    with Cons show ?thesis by (simp add: getitem_Inr)
  qed
qed

lemma list_all_upt_less: "list_all (\<lambda>i. i < m) [0..<n] = (n \<le> m)"
  by (auto simp: list_all_iff)

lemma map_nth_upt_take:
  "n \<le> length ps \<Longrightarrow> map (\<lambda>i. f (ps ! i)) [0..<n] = map f (take n ps)"
  by (simp add: list_eq_iff_nth_eq)

lemma prob_loop_upt:
  "prob_loop ps h [0..<n] =
     (if n \<le> length ps then Inr (map (\<lambda>a. weight (particle_objs h a)) (take n ps))
      else Inl IndexError)"
proof (cases "n \<le> length ps")
  case True
  then show ?thesis
    by (simp add: prob_loop_ok list_all_upt_less
          map_nth_upt_take[where f = "\<lambda>a. weight (particle_objs h a)"])
next
  case False
  then show ?thesis
    by (simp add: prob_loop_fail list_all_upt_less)
qed

lemma sum_list_divide: "sum_list (map (\<lambda>w. w / s) ws) = sum_list ws / (s::real)"
  by (induction ws) (simp_all add: add_divide_distrib)

lemma nonneg_sum_pos:
  assumes "list_all (\<lambda>w. 0 \<le> w) ws" "sum_list ws \<noteq> 0"
  shows "0 < sum_list (ws :: real list)"
proof -
  have "0 \<le> sum_list ws" using assms(1) by (intro sum_list_nonneg) (simp add: list_all_iff)
  with assms(2) show ?thesis by simp
qed

lemma np_random_choice_ok:
  assumes "a \<noteq> 0" "length ws = a" "list_all (\<lambda>w. 0 \<le> w) ws" "sum_list ws \<noteq> 0"
  shows "np_random_choice a sz (np_divide_sum ws) drawn = Inr drawn"
proof -
  have pos: "0 < sum_list ws" by (rule nonneg_sum_pos[OF assms(3,4)])
  have "\<not> list_ex (\<lambda>x. x < 0) (map (\<lambda>w. w / sum_list ws) ws)"
    using assms(3) pos by (auto simp: list_ex_iff list_all_iff not_less)
  moreover have "sum_list (map (\<lambda>w. w / sum_list ws) ws) = 1"
    using pos by (simp add: sum_list_divide)
  ultimately show ?thesis
    using assms(1,2,4) by (simp add: np_random_choice_def np_divide_sum_def)
qed

lemma deepcopy_Particle_fst: "fst (deepcopy_Particle a h) = next_particle h"
  by (simp add: deepcopy_Particle_def Let_def)

lemma deepcopy_Particle_next:
  "next_particle (snd (deepcopy_Particle a h)) = Suc (next_particle h)"
  "next_grid (snd (deepcopy_Particle a h)) = Suc (next_grid h)"
  by (simp_all add: deepcopy_Particle_def Let_def)

lemma deepcopy_Particle_old:
  "b \<noteq> next_particle h \<Longrightarrow> particle_objs (snd (deepcopy_Particle a h)) b = particle_objs h b"
  "g \<noteq> next_grid h \<Longrightarrow> grid_objs (snd (deepcopy_Particle a h)) g = grid_objs h g"
  by (simp_all add: deepcopy_Particle_def Let_def)

lemma deepcopy_Particle_new:
  "particle_objs (snd (deepcopy_Particle a h)) (next_particle h) =
     (particle_objs h a)\<lparr>grid := next_grid h\<rparr>"
  "grid_objs (snd (deepcopy_Particle a h)) (next_grid h) = grid_objs h (grid (particle_objs h a))"
  by (simp_all add: deepcopy_Particle_def Let_def)

lemma copy_loop_Cons:
  assumes "i < length ni" "ni ! i < length ps"
  shows "copy_loop ps ni (i # rest) h =
     (case copy_loop ps ni rest (snd (deepcopy_Particle (ps ! (ni ! i)) h)) of
        (Inl e, h'') \<Rightarrow> (Inl e, h'')
      | (Inr as, h'') \<Rightarrow> (Inr (next_particle h # as), h''))"
  using assms
  by (simp add: getitem_Inr split_beta deepcopy_Particle_fst split: sum.splits)

lemma copy_loop_Cons_snd:
  assumes "i < length ni" "ni ! i < length ps"
  shows "snd (copy_loop ps ni (i # rest) h) =
           snd (copy_loop ps ni rest (snd (deepcopy_Particle (ps ! (ni ! i)) h)))"
  unfolding copy_loop_Cons[OF assms] by (simp split: prod.splits sum.splits)

lemma copy_loop_result:
  "valid_draws ps ni is \<Longrightarrow>
   fst (copy_loop ps ni is h) = Inr (map (\<lambda>k. next_particle h + k) [0..<length is]) \<and>
   next_particle (snd (copy_loop ps ni is h)) = next_particle h + length is \<and>
   next_grid (snd (copy_loop ps ni is h)) = next_grid h + length is"
proof (induction "is" arbitrary: h)
  case Nil
  then show ?case by simp
next
  case (Cons i rest)
  from Cons.prems have i: "i < length ni" "ni ! i < length ps" and r: "valid_draws ps ni rest"
    by (simp_all add: valid_draws_def)
  let ?h1 = "snd (deepcopy_Particle (ps ! (ni ! i)) h)"
  obtain res h2 where c: "copy_loop ps ni rest ?h1 = (res, h2)" by (cases "copy_loop ps ni rest ?h1")
  from Cons.IH[OF r, of ?h1] c
  have res: "res = Inr (map (\<lambda>k. Suc (next_particle h) + k) [0..<length rest])"
    and np: "next_particle h2 = Suc (next_particle h) + length rest"
    and ng: "next_grid h2 = Suc (next_grid h) + length rest"
    by (simp_all add: deepcopy_Particle_next)
  show ?case
    unfolding copy_loop_Cons[OF i] c
    by (simp add: res np ng map_upt_Suc del: upt_Suc)
qed

lemma copy_loop_frame:
  "(b < next_particle h \<longrightarrow> particle_objs (snd (copy_loop ps ni is h)) b = particle_objs h b) \<and>
   (g < next_grid h \<longrightarrow> grid_objs (snd (copy_loop ps ni is h)) g = grid_objs h g)"
proof (induction "is" arbitrary: h)
  case Nil
  then show ?case by simp
next
  case (Cons i rest)
  show ?case
  proof (cases "i < length ni \<and> ni ! i < length ps")
    case False
    then show ?thesis by (auto simp: getitem_def)
  next
    case True
    let ?h1 = "snd (deepcopy_Particle (ps ! (ni ! i)) h)"
    have s: "snd (copy_loop ps ni (i # rest) h) = snd (copy_loop ps ni rest ?h1)"
      using True by (intro copy_loop_Cons_snd) simp_all
    from Cons.IH[of ?h1] show ?thesis
      unfolding s by (auto simp: deepcopy_Particle_next deepcopy_Particle_old)
  qed
qed

lemma copy_loop_content:
  "valid_draws ps ni is \<Longrightarrow> k < length is \<Longrightarrow>
   ps ! (ni ! (is ! k)) < next_particle h \<Longrightarrow>
   particle_objs (snd (copy_loop ps ni is h)) (next_particle h + k) =
     (particle_objs h (ps ! (ni ! (is ! k))))\<lparr>grid := next_grid h + k\<rparr> \<and>
   (grid (particle_objs h (ps ! (ni ! (is ! k)))) < next_grid h \<longrightarrow>
    grid_objs (snd (copy_loop ps ni is h)) (next_grid h + k) =
      grid_objs h (grid (particle_objs h (ps ! (ni ! (is ! k))))))"
proof (induction "is" arbitrary: h k)
  case Nil
  then show ?case by simp
next
  case (Cons i rest)
  from Cons.prems have i: "i < length ni" "ni ! i < length ps" and r: "valid_draws ps ni rest"
    by (simp_all add: valid_draws_def)
  let ?src = "ps ! (ni ! i)"
  let ?h1 = "snd (deepcopy_Particle ?src h)"
  have s: "snd (copy_loop ps ni (i # rest) h) = snd (copy_loop ps ni rest ?h1)"
    using i by (intro copy_loop_Cons_snd)
  show ?case
  proof (cases k)
    case 0
    have "next_particle h < next_particle ?h1" "next_grid h < next_grid ?h1"
      by (simp_all add: deepcopy_Particle_next)
    with copy_loop_frame[of "next_particle h" ?h1 ps ni rest "next_grid h"]
    show ?thesis
      unfolding s using 0 by (simp add: deepcopy_Particle_new)
  next
    case (Suc k')
    let ?s = "ps ! (ni ! (rest ! k'))"
    from Cons.prems Suc have k': "k' < length rest" and lt: "?s < next_particle h" by simp_all
    then have lt1: "?s < next_particle ?h1" by (simp add: deepcopy_Particle_next)
    have p: "particle_objs ?h1 ?s = particle_objs h ?s"
      using lt by (simp add: deepcopy_Particle_old)
    have g: "grid (particle_objs h ?s) < next_grid h \<Longrightarrow>
             grid_objs ?h1 (grid (particle_objs h ?s)) = grid_objs h (grid (particle_objs h ?s))"
      by (simp add: deepcopy_Particle_old)
    from Cons.IH[OF r k' lt1] show ?thesis
      unfolding s using Suc g by (simp add: p deepcopy_Particle_next)
  qed
qed

lemma assign_loop_upt:
  "j \<le> n \<Longrightarrow> n \<le> length ps \<Longrightarrow> n \<le> length new \<Longrightarrow>
   assign_loop ps new [j..<n] = (None, take j ps @ take (n - j) (drop j new) @ drop n ps)"
proof (induction "n - j" arbitrary: j ps)
  case 0
  then show ?case by simp
next
  case (Suc d)
  then have j: "j < n" by simp
  then have u: "[j..<n] = j # [Suc j..<n]" by (simp add: upt_conv_Cons)
  have l: "n \<le> length (ps[j := new ! j])" using Suc.prems by simp
  have d: "d = n - Suc j" using Suc.hyps(2) by simp
  have "assign_loop (ps[j := new ! j]) new [Suc j..<n] =
     (None, take (Suc j) (ps[j := new ! j]) @ take (n - Suc j) (drop (Suc j) new) @
        drop n (ps[j := new ! j]))"
    using j by (intro Suc.hyps(1)[OF d _ l Suc.prems(3)]) simp
  moreover have "take (Suc j) (ps[j := new ! j]) = take j ps @ [new ! j]"
    using j Suc.prems by (simp add: take_Suc_conv_app_nth)
  moreover have "drop n (ps[j := new ! j]) = drop n ps" using j by simp
  moreover have "take (n - j) (drop j new) = new ! j # take (n - Suc j) (drop (Suc j) new)"
    using j Suc.prems by (metis Cons_nth_drop_Suc Suc_diff_Suc le_trans less_le_not_le not_less take_Suc_Cons)
  ultimately show ?case
    unfolding u using j Suc.prems by (simp add: getitem_Inr)
qed

lemma assign_loop_all:
  "length ps = n \<Longrightarrow> length new = n \<Longrightarrow> assign_loop ps new [0..<n] = (None, new)"
  using assign_loop_upt[of 0 n ps new] by simp

lemma NUM_PARTICLES_pos: "0 < NUM_PARTICLES"
  by (simp add: NUM_PARTICLES_def)

lemma valid_draws_upt:
  assumes "length drawn = n" "list_all (\<lambda>i. i < length ps) drawn"
  shows "valid_draws ps drawn [0..<n]"
  using assms by (auto simp: valid_draws_def list_all_iff)


lemma all_float_not_object:
  "ws \<noteq> [] \<Longrightarrow> list_all is_pyfloat ws \<Longrightarrow> \<not> np_object_dtype ws"
  by (cases ws) (auto simp: np_object_dtype_def elim: is_pyfloat.elims)

lemma Resample_run_too_few:
  "length (particles pf) < NUM_PARTICLES \<Longrightarrow>
   Resample_run pf drawn h = ((Some IndexError, pf, h), [])"
  by (simp add: Resample_run_def prob_loop_upt)



lemma Resample_run_success:
  assumes len: "length (particles pf) = NUM_PARTICLES"
    and no: "\<not> np_object_dtype (map (\<lambda>a. weight (particle_objs h a)) (particles pf))"
    and w: "list_all (\<lambda>a. 0 \<le> pyvalue (weight (particle_objs h a))) (particles pf)"
    and s: "sum_list (map (\<lambda>a. pyvalue (weight (particle_objs h a))) (particles pf)) \<noteq> 0"
    and d: "length drawn = NUM_PARTICLES" "list_all (\<lambda>i. i < NUM_PARTICLES) drawn"
  shows "Resample_run pf drawn h =
           ((None,
             pf\<lparr>particles := map (\<lambda>k. next_particle h + k) [0..<NUM_PARTICLES]\<rparr>,
             snd (copy_loop (particles pf) drawn [0..<NUM_PARTICLES] h)), [])"
proof -
  let ?ps = "map (\<lambda>a. weight (particle_objs h a)) (particles pf)"
  let ?ws = "map (\<lambda>a. pyvalue (weight (particle_objs h a))) (particles pf)"
  have p: "prob_loop (particles pf) h [0..<NUM_PARTICLES] = Inr ?ps"
    by (simp add: prob_loop_upt len)
  have v: "map pyvalue ?ps = ?ws" by (simp add: comp_def)
  have q: "prob_divide_sum ?ps = (Inr (np_divide_sum ?ws), [])"
    using no s by (simp add: prob_divide_sum_def comp_def)
  have c: "np_random_choice NUM_PARTICLES NUM_PARTICLES (np_divide_sum ?ws) drawn = Inr drawn"
    using NUM_PARTICLES_pos len w s
    by (intro np_random_choice_ok) (simp_all add: list_all_iff)
  have vd: "valid_draws (particles pf) drawn [0..<NUM_PARTICLES]"
    using d by (intro valid_draws_upt) (simp_all add: len)
  from copy_loop_result[OF vd, of h]
  have f: "fst (copy_loop (particles pf) drawn [0..<NUM_PARTICLES] h) =
             Inr (map (\<lambda>k. next_particle h + k) [0..<NUM_PARTICLES])"
    by simp
  have a: "assign_loop (particles pf) (map (\<lambda>k. next_particle h + k) [0..<NUM_PARTICLES])
             [0..<NUM_PARTICLES] = (None, map (\<lambda>k. next_particle h + k) [0..<NUM_PARTICLES])"
    by (intro assign_loop_all) (simp_all add: len)
  obtain r h' where ch: "copy_loop (particles pf) drawn [0..<NUM_PARTICLES] h = (r, h')"
    by (cases "copy_loop (particles pf) drawn [0..<NUM_PARTICLES] h")
  with f have r: "r = Inr (map (\<lambda>k. next_particle h + k) [0..<NUM_PARTICLES])" by simp
  show ?thesis
    by (simp add: Resample_run_def p q c ch r a)
qed



lemma Resample_run_float:
  assumes len: "length (particles pf) = NUM_PARTICLES"
    and fl: "list_all (\<lambda>a. is_pyfloat (weight (particle_objs h a))) (particles pf)"
    and w: "list_all (\<lambda>a. 0 \<le> pyvalue (weight (particle_objs h a))) (particles pf)"
    and s: "sum_list (map (\<lambda>a. pyvalue (weight (particle_objs h a))) (particles pf)) \<noteq> 0"
    and d: "length drawn = NUM_PARTICLES" "list_all (\<lambda>i. i < NUM_PARTICLES) drawn"
  shows "Resample_run pf drawn h =
           ((None,
             pf\<lparr>particles := map (\<lambda>k. next_particle h + k) [0..<NUM_PARTICLES]\<rparr>,
             snd (copy_loop (particles pf) drawn [0..<NUM_PARTICLES] h)), [])"
proof -
  have ne: "map (\<lambda>a. weight (particle_objs h a)) (particles pf) \<noteq> []"
    using len NUM_PARTICLES_pos by auto
  have "list_all is_pyfloat (map (\<lambda>a. weight (particle_objs h a)) (particles pf))"
    using fl by (simp add: list_all_iff)
  from all_float_not_object[OF ne this] show ?thesis
    by (rule Resample_run_success[OF len _ w s d])
qed

lemma Resample_success_content:
  assumes len: "length (particles pf) = NUM_PARTICLES"
    and wf: "list_all (\<lambda>a. a < next_particle h \<and> grid (particle_objs h a) < next_grid h)
               (particles pf)"
    and d: "length drawn = NUM_PARTICLES" "list_all (\<lambda>i. i < NUM_PARTICLES) drawn"
    and i: "i < NUM_PARTICLES"
  shows "particle_objs (snd (copy_loop (particles pf) drawn [0..<NUM_PARTICLES] h))
           (next_particle h + i) =
         (particle_objs h (particles pf ! (drawn ! i)))\<lparr>grid := next_grid h + i\<rparr> \<and>
         grid_objs (snd (copy_loop (particles pf) drawn [0..<NUM_PARTICLES] h))
           (next_grid h + i) =
         grid_objs h (grid (particle_objs h (particles pf ! (drawn ! i))))"
proof -
  have v: "valid_draws (particles pf) drawn [0..<NUM_PARTICLES]"
    using d by (intro valid_draws_upt) (simp_all add: len)
  have di: "drawn ! i < length (particles pf)"
    using d i by (simp add: list_all_length len)
  then have src: "particles pf ! (drawn ! i) < next_particle h"
    "grid (particle_objs h (particles pf ! (drawn ! i))) < next_grid h"
    using wf by (simp_all add: list_all_length)
  from copy_loop_content[OF v, of i h] i src show ?thesis by simp
qed

lemma distinct_offsets: "distinct (map (\<lambda>k. (n::nat) + k) [0..<m])"
  by (simp add: distinct_map inj_on_def)

lemma crowd_len: "length (particles crowd) = NUM_PARTICLES"
  by (simp add: crowd_def)

lemma stamped_len: "length (particles (crowd\<lparr>last_timestamp := Some 0\<rparr>)) = NUM_PARTICLES"
  by (simp add: crowd_def)

lemma scanned_wf:
  "list_all (\<lambda>a. a < next_particle scanned_heap \<and>
                  grid (particle_objs scanned_heap a) < next_grid scanned_heap)
     (particles (crowd\<lparr>last_timestamp := Some 0\<rparr>))"
  by (simp add: crowd_def scanned_heap_def crowd_heap_def corridor_heap_def list_all_iff)

lemma scanned_weight:
  "a \<in> set (particles crowd) \<Longrightarrow> weight (particle_objs scanned_heap a) = PyFloat (1 / 10 ^ 300)"
  by (simp add: scanned_heap_def del: power_numeral)

lemma scanned_float:
  "list_all (\<lambda>a. is_pyfloat (weight (particle_objs scanned_heap a)))
     (particles (crowd\<lparr>last_timestamp := Some 0\<rparr>))"
  by (simp add: scanned_weight list_all_iff del: power_numeral)

lemma scanned_nonneg:
  "list_all (\<lambda>a. 0 \<le> pyvalue (weight (particle_objs scanned_heap a)))
     (particles (crowd\<lparr>last_timestamp := Some 0\<rparr>))"
  by (simp add: scanned_weight list_all_iff del: power_numeral)

lemma sum_list_const: "sum_list (map (\<lambda>a. c) xs) = real (length xs) * c"
  by (induction xs) (simp_all add: algebra_simps)

lemma scanned_sum:
  "sum_list (map (\<lambda>a. pyvalue (weight (particle_objs scanned_heap a)))
     (particles (crowd\<lparr>last_timestamp := Some 0\<rparr>))) = real NUM_PARTICLES * (1 / 10 ^ 300)"
proof -
  have eq: "map (\<lambda>a. pyvalue (weight (particle_objs scanned_heap a))) (particles crowd) =
        map (\<lambda>a. 1 / 10 ^ 300) (particles crowd)"
    by (rule map_cong[OF refl]) (simp add: scanned_weight del: power_numeral)
  have p: "particles (crowd\<lparr>last_timestamp := Some 0\<rparr>) = particles crowd" by simp
  show ?thesis
    unfolding p eq sum_list_const crowd_len by (rule refl)
qed

lemma scanned_sum_nonzero:
  "sum_list (map (\<lambda>a. pyvalue (weight (particle_objs scanned_heap a)))
     (particles (crowd\<lparr>last_timestamp := Some 0\<rparr>))) \<noteq> 0"
  unfolding scanned_sum using NUM_PARTICLES_pos by (simp del: power_numeral)




lemma draws_zero:
  "length (replicate NUM_PARTICLES (0::nat)) = NUM_PARTICLES"
  "list_all (\<lambda>i. i < NUM_PARTICLES) (replicate NUM_PARTICLES 0)"
  using NUM_PARTICLES_pos by (simp_all add: list_all_iff)

lemma crowd_scan_far_beam:
  "ParticleFilter_UpdateScan underflow_ops crowd far_beam drawn crowd_heap =
     Resample (crowd\<lparr>last_timestamp := Some 0\<rparr>) drawn scanned_heap"
proof -
  have l: "last_timestamp crowd = None" "scan_stamp far_beam = 0"
    by (simp_all add: crowd_def far_beam_def)
  have p: "particles (crowd\<lparr>last_timestamp := Some 0\<rparr>) = particles crowd" by simp
  show ?thesis
    unfolding ParticleFilter_UpdateScan_def Let_def l option.case p crowd_far_beam
    by simp
qed


lemma tiny_not_uniform: "(1::real) / 10 ^ 300 \<noteq> 1 / 2000"
proof -
  have "(2000::real) < 10 ^ 300" by simp
  then have "(1::real) / 10 ^ 300 < 1 / 2000"
    by (simp add: field_simps del: power_numeral)
  then show ?thesis by simp
qed

text \<open>
  C1, as the specification states it: after the resampling step every particle's weight
  is \<open>1/N\<close>. For the population of N = 2000 example particles, the scan whose one beam
  measures the range 1000 (the simulated range is 2, so the \<open>float64\<close> exponential of
  the beam underflows to zero and the sensor update assigns the weight \<open>10**(-300)\<close>)
  and the draw that picks index 0 every time, the scan event returns normally with 2000
  particles, and the first of them has the weight \<open>10**(-300)\<close> of the particle it was
  copied from, not 1/2000.
\<close>

theorem Resample_weight_counterexample:
  "fst (ParticleFilter_UpdateScan underflow_ops crowd far_beam (replicate NUM_PARTICLES 0)
          crowd_heap) = None \<and>
   length (particles (fst (snd (ParticleFilter_UpdateScan underflow_ops crowd far_beam
          (replicate NUM_PARTICLES 0) crowd_heap)))) = 2000 \<and>
   weight (particle_objs
      (snd (snd (ParticleFilter_UpdateScan underflow_ops crowd far_beam
          (replicate NUM_PARTICLES 0) crowd_heap)))
      (particles (fst (snd (ParticleFilter_UpdateScan underflow_ops crowd far_beam
          (replicate NUM_PARTICLES 0) crowd_heap))) ! 0)) = PyFloat (1 / 10 ^ 300) \<and>
   (1::real) / 10 ^ 300 \<noteq> 1 / 2000"
proof -
  let ?D = "replicate NUM_PARTICLES (0::nat)"
  let ?pf = "crowd\<lparr>last_timestamp := Some 0\<rparr>"
  let ?h' = "snd (copy_loop (particles ?pf) ?D [0..<NUM_PARTICLES] scanned_heap)"
  let ?new = "map (\<lambda>k. next_particle scanned_heap + k) [0..<NUM_PARTICLES]"
  have res: "ParticleFilter_UpdateScan underflow_ops crowd far_beam ?D crowd_heap =
      (None, ?pf\<lparr>particles := ?new\<rparr>, ?h')"
    unfolding crowd_scan_far_beam Resample_def
      Resample_run_float[OF stamped_len scanned_float scanned_nonneg scanned_sum_nonzero draws_zero]
    by (rule fst_conv)
  have z: "particles ?pf ! (?D ! 0) \<in> set (particles crowd)"
    using NUM_PARTICLES_pos by (simp add: crowd_def del: upt_Suc)
  from Resample_success_content[OF stamped_len scanned_wf draws_zero NUM_PARTICLES_pos]
  have "particle_objs ?h' (next_particle scanned_heap + 0) =
      (particle_objs scanned_heap (particles ?pf ! (?D ! 0)))\<lparr>grid := next_grid scanned_heap + 0\<rparr>"
    by (rule conjunct1)
  then have "weight (particle_objs ?h' (next_particle scanned_heap + 0)) =
      weight ((particle_objs scanned_heap (particles ?pf ! (?D ! 0)))
                \<lparr>grid := next_grid scanned_heap + 0\<rparr>)"
    by (rule arg_cong)
  also have "\<dots> = weight (particle_objs scanned_heap (particles ?pf ! (?D ! 0)))"
    by simp
  also have "\<dots> = PyFloat (1 / 10 ^ 300)"
    by (rule scanned_weight[OF z])
  finally have wt:
    "weight (particle_objs ?h' (next_particle scanned_heap + 0)) = PyFloat (1 / 10 ^ 300)" .
  have n0: "?new ! 0 = next_particle scanned_heap + 0"
    using NUM_PARTICLES_pos by (simp del: upt_Suc)
  have a: "fst (None :: error option, ?pf\<lparr>particles := ?new\<rparr>, ?h') = None" by simp
  have b: "length (particles (fst (snd (None :: error option, ?pf\<lparr>particles := ?new\<rparr>, ?h')))) = 2000"
    by (simp add: NUM_PARTICLES_def del: upt_Suc)
  have c: "weight (particle_objs (snd (snd (None :: error option, ?pf\<lparr>particles := ?new\<rparr>, ?h')))
      (particles (fst (snd (None :: error option, ?pf\<lparr>particles := ?new\<rparr>, ?h'))) ! 0)) =
      PyFloat (1 / 10 ^ 300)"
    unfolding snd_conv fst_conv using wt n0 by (simp del: power_numeral upt_Suc)
  show ?thesis
    unfolding res by (intro conjI a b c tiny_not_uniform)
qed

text \<open>
  C1, amended: for a population of exactly \<open>NUM_PARTICLES\<close> particles (N =
  \<open>NUM_PARTICLES\<close>) that are objects of the store, with non-negative float weights of
  non-zero sum, and \<open>NUM_PARTICLES\<close> drawn indices below \<open>NUM_PARTICLES\<close>, the
  resampling step returns normally and the new population has exactly N particles. Each
  new particle is a deep copy of the particle at its drawn index: it has that particle's
  pose, last-odometry timestamp and weight (the weight is not reset to \<open>1/N\<close>), and a
  grid object of its own with the contents of that particle's grid. No two new particles
  are the same object or refer to the same grid object, and no new particle is an object
  of the old population.
\<close>

theorem Resample_deep_copies:
  assumes len: "length (particles pf) = NUM_PARTICLES"
    and wf: "list_all (\<lambda>a. a < next_particle h \<and> grid (particle_objs h a) < next_grid h)
               (particles pf)"
    and fl: "list_all (\<lambda>a. is_pyfloat (weight (particle_objs h a))) (particles pf)"
    and w: "list_all (\<lambda>a. 0 \<le> pyvalue (weight (particle_objs h a))) (particles pf)"
    and s: "sum_list (map (\<lambda>a. pyvalue (weight (particle_objs h a))) (particles pf)) \<noteq> 0"
    and d: "length drawn = NUM_PARTICLES" "list_all (\<lambda>i. i < NUM_PARTICLES) drawn"
  shows "(let res = Resample pf drawn h; pf' = fst (snd res); h' = snd (snd res)
          in fst res = None \<and>
             length (particles pf') = NUM_PARTICLES \<and>
             distinct (particles pf') \<and>
             set (particles pf') \<inter> set (particles pf) = {} \<and>
             distinct (map (\<lambda>a. grid (particle_objs h' a)) (particles pf')) \<and>
             (\<forall>i<NUM_PARTICLES.
                particle_objs h' (particles pf' ! i) =
                  (particle_objs h (particles pf ! (drawn ! i)))
                    \<lparr>grid := grid (particle_objs h' (particles pf' ! i))\<rparr> \<and>
                grid_objs h' (grid (particle_objs h' (particles pf' ! i))) =
                  grid_objs h (grid (particle_objs h (particles pf ! (drawn ! i))))))"
proof -
  let ?new = "map (\<lambda>k. next_particle h + k) [0..<NUM_PARTICLES]"
  let ?h' = "snd (copy_loop (particles pf) drawn [0..<NUM_PARTICLES] h)"
  have res: "Resample pf drawn h = (None, pf\<lparr>particles := ?new\<rparr>, ?h')"
    unfolding Resample_def Resample_run_float[OF len fl w s d] by (rule fst_conv)
  have content: "i < NUM_PARTICLES \<Longrightarrow>
      particle_objs ?h' (next_particle h + i) =
        (particle_objs h (particles pf ! (drawn ! i)))\<lparr>grid := next_grid h + i\<rparr> \<and>
      grid_objs ?h' (next_grid h + i) =
        grid_objs h (grid (particle_objs h (particles pf ! (drawn ! i))))" for i
    by (rule Resample_success_content[OF len wf d])
  have grids: "map (\<lambda>a. grid (particle_objs ?h' a)) ?new =
                 map (\<lambda>k. next_grid h + k) [0..<NUM_PARTICLES]"
    by (simp add: content)
  have old: "a \<in> set (particles pf) \<Longrightarrow> a < next_particle h" for a
    using wf by (simp add: list_all_iff)
  have disj: "set ?new \<inter> set (particles pf) = {}"
    using old by fastforce
  have each: "\<forall>i<NUM_PARTICLES.
      particle_objs ?h' (?new ! i) =
        (particle_objs h (particles pf ! (drawn ! i)))
          \<lparr>grid := grid (particle_objs ?h' (?new ! i))\<rparr> \<and>
      grid_objs ?h' (grid (particle_objs ?h' (?new ! i))) =
        grid_objs h (grid (particle_objs h (particles pf ! (drawn ! i))))"
    by (simp add: content)
  have dg: "distinct (map (\<lambda>a. grid (particle_objs ?h' a)) ?new)"
    unfolding grids by (rule distinct_offsets)
  have sel: "particles (pf\<lparr>particles := ?new\<rparr>) = ?new" by simp
  have l: "length ?new = NUM_PARTICLES" by simp
  show ?thesis
    unfolding Let_def res fst_conv snd_conv sel
    by (intro conjI refl l distinct_offsets disj dg each)
qed

theorem Resample_deep_copies_witness:
  "length (particles (crowd\<lparr>last_timestamp := Some 0\<rparr>)) = NUM_PARTICLES \<and>
   list_all (\<lambda>a. a < next_particle scanned_heap \<and>
                  grid (particle_objs scanned_heap a) < next_grid scanned_heap)
     (particles (crowd\<lparr>last_timestamp := Some 0\<rparr>)) \<and>
   list_all (\<lambda>a. is_pyfloat (weight (particle_objs scanned_heap a)))
     (particles (crowd\<lparr>last_timestamp := Some 0\<rparr>)) \<and>
   list_all (\<lambda>a. 0 \<le> pyvalue (weight (particle_objs scanned_heap a)))
     (particles (crowd\<lparr>last_timestamp := Some 0\<rparr>)) \<and>
   sum_list (map (\<lambda>a. pyvalue (weight (particle_objs scanned_heap a)))
     (particles (crowd\<lparr>last_timestamp := Some 0\<rparr>))) \<noteq> 0 \<and>
   length (replicate NUM_PARTICLES (0::nat)) = NUM_PARTICLES \<and>
   list_all (\<lambda>i. i < NUM_PARTICLES) (replicate NUM_PARTICLES 0) \<and>
   fst (Resample (crowd\<lparr>last_timestamp := Some 0\<rparr>) (replicate NUM_PARTICLES 0) scanned_heap) =
     None \<and>
   distinct (particles (fst (snd (Resample (crowd\<lparr>last_timestamp := Some 0\<rparr>)
     (replicate NUM_PARTICLES 0) scanned_heap)))) \<and>
   map_T_particle
     (particle_objs (snd (snd (Resample (crowd\<lparr>last_timestamp := Some 0\<rparr>)
         (replicate NUM_PARTICLES 0) scanned_heap)))
        (particles (fst (snd (Resample (crowd\<lparr>last_timestamp := Some 0\<rparr>)
         (replicate NUM_PARTICLES 0) scanned_heap))) ! 5)) =
   map_T_particle (particle_objs scanned_heap (particles (crowd\<lparr>last_timestamp := Some 0\<rparr>) ! 0))"
proof -
  let ?D = "replicate NUM_PARTICLES (0::nat)"
  let ?pf = "crowd\<lparr>last_timestamp := Some 0\<rparr>"
  let ?res = "Resample ?pf ?D scanned_heap"
  note t = Resample_deep_copies[OF stamped_len scanned_wf scanned_float scanned_nonneg
      scanned_sum_nonzero draws_zero, unfolded Let_def]
  have five: "5 < NUM_PARTICLES" by (simp add: NUM_PARTICLES_def)
  from t have a: "fst ?res = None" and b: "distinct (particles (fst (snd ?res)))"
    by blast+
  from t five have
    "particle_objs (snd (snd ?res)) (particles (fst (snd ?res)) ! 5) =
       (particle_objs scanned_heap (particles ?pf ! (?D ! 5)))
         \<lparr>grid := grid (particle_objs (snd (snd ?res)) (particles (fst (snd ?res)) ! 5))\<rparr>"
    by blast
  then have
    "map_T_particle (particle_objs (snd (snd ?res)) (particles (fst (snd ?res)) ! 5)) =
     map_T_particle ((particle_objs scanned_heap (particles ?pf ! (?D ! 5)))
         \<lparr>grid := grid (particle_objs (snd (snd ?res)) (particles (fst (snd ?res)) ! 5))\<rparr>)"
    by (rule arg_cong)
  then have c:
    "map_T_particle (particle_objs (snd (snd ?res)) (particles (fst (snd ?res)) ! 5)) =
     map_T_particle (particle_objs scanned_heap (particles ?pf ! 0))"
    using five by simp
  from stamped_len scanned_wf scanned_float scanned_nonneg scanned_sum_nonzero draws_zero a b c
  show ?thesis by (intro conjI)
qed




end
